theory Spec2Isabelle
  imports Complex_Main "HOL-Library.Sublist" "HOL-Library.Log_Nat" "HOL-Library.Monad_Syntax"
begin


section \<open>JavaScript numbers\<close>

text \<open>
  The classifier computes with JavaScript numbers, that is IEEE-754 binary64 values.
  A finite number is modelled by the rational it denotes. Every arithmetic operation
  is the exact operation followed by \<open>fl\<close>, rounding to the nearest value with a
  53-bit significand, ties to the even significand. The exponent is not bounded: the
  model agrees with binary64 on magnitudes in \<open>[2^-1022, 2^1024)\<close>, and the
  classifier stays far inside that range (an array has fewer than \<open>2^32\<close> elements,
  a score is at most 100).

  \<open>NaN\<close> and the infinities are not numbers of the model. They arise from a division
  by zero only, so a division returns an optional number, \<open>None\<close> where JavaScript
  yields \<open>NaN\<close> or an infinity, and every computation that uses the quotient passes
  \<open>None\<close> on, as JavaScript passes \<open>NaN\<close> on through \<open>Math.round\<close>, \<open>Math.min\<close> and
  \<open>Math.max\<close>.
\<close>

type_synonym number = rat

definition ilog2 :: "rat \<Rightarrow> int" where
  \<comment> \<open>for \<open>0 < x\<close>: the exponent \<open>e\<close> with \<open>2^e \<le> x < 2^(e+1)\<close>\<close>
  "ilog2 x = (case quotient_of x of (p, q) \<Rightarrow>
     let k = bitlen p - bitlen q in if 2 powi k \<le> x then k else k - 1)"

definition round_even :: "rat \<Rightarrow> int" where
  "round_even y = (let f = \<lfloor>y\<rfloor>; d = y - of_int f in
     if d < 1 / 2 then f else if 1 / 2 < d then f + 1 else if even f then f else f + 1)"

definition fl :: "rat \<Rightarrow> number" where
  "fl x = (if x = 0 then 0 else
     let u = 2 powi (ilog2 \<bar>x\<bar> - 52) in sgn x * of_int (round_even (\<bar>x\<bar> / u)) * u)"

definition js_add :: "number \<Rightarrow> number \<Rightarrow> number" where
  "js_add a b = fl (a + b)"

definition js_mul :: "number \<Rightarrow> number \<Rightarrow> number" where
  "js_mul a b = fl (a * b)"

definition js_div :: "number \<Rightarrow> number \<Rightarrow> number option" where
  \<comment> \<open>\<open>a / 0\<close> is \<open>NaN\<close> or an infinity\<close>
  "js_div a b = (if b = 0 then None else Some (fl (a / b)))"

definition Math_round :: "number \<Rightarrow> number" where
  \<comment> \<open>\<open>Math.round\<close>: the nearest integer, a half rounding towards \<open>+\<infinity>\<close>\<close>
  "Math_round x = of_int \<lfloor>x + 1 / 2\<rfloor>"


section \<open>Strings\<close>

text \<open>
  A text is a string of code points below 256 (Latin-1). On these, \<open>toLowerCase\<close>
  maps \<open>A\<close>--\<open>Z\<close> and the upper-case letters \<open>0xC0\<close>--\<open>0xDE\<close> (without the
  multiplication sign \<open>0xD7\<close>) to the code point 32 above, and \<open>includes\<close> is
  containment as a contiguous sublist.
\<close>

definition lower_char :: "char \<Rightarrow> char" where
  "lower_char c = (let n = (of_char c :: nat) in
     if (65 \<le> n \<and> n \<le> 90) \<or> (192 \<le> n \<and> n \<le> 222 \<and> n \<noteq> 215)
     then char_of (n + 32) else c)"

definition lc :: "string \<Rightarrow> string" where
  "lc text = map lower_char text"

definition str_includes :: "string \<Rightarrow> string \<Rightarrow> bool" where
  "str_includes s w = sublist w s"


section \<open>Types of \<open>lib/classifier.ts\<close>\<close>

datatype RiskCategory = Geopolitical | Monetary | Commodity | SupplyChain | General

datatype ImpactLevel = LOW | MEDIUM | HIGH

text \<open>
  The field \<open>source\<close> is declared \<open>{ name: string } | string\<close>; the classifier also
  accepts an object without a name and a missing field.
\<close>

datatype SourceField = SourceString string | SourceObject "string option" | SourceMissing

record RawArticle =
  title :: string
  description :: "string option"
  source :: SourceField
  url :: string
  publishedAt :: string

text \<open>
  \<open>Partial<Record<RiskCategory, string[]>>\<close>: an object, which keeps its keys in the
  order of their insertion. It is the list of its entries, as \<open>Object.entries\<close> returns it.
\<close>

type_synonym KeywordMatches = "(RiskCategory \<times> string list) list"

record ClassifiedArticle =
  title :: string
  description :: string
  source :: string
  url :: string
  publishedAt :: string
  riskCategory :: RiskCategory
  articleScore :: number
  keywordMatches :: KeywordMatches

record CategoryBreakdown =
  Geopolitical' :: number
  Monetary' :: number
  Commodity' :: number
  SupplyChain' :: number
  General' :: number

record AssessmentResult =
  overallScore :: number
  impactLevel :: ImpactLevel
  dominantCategory :: RiskCategory
  categoryBreakdown :: CategoryBreakdown
  articles :: "ClassifiedArticle list"

text \<open>Reading, writing and enumerating a \<open>CategoryBreakdown\<close> by its key.\<close>

fun get_count :: "CategoryBreakdown \<Rightarrow> RiskCategory \<Rightarrow> number" where
  "get_count b Geopolitical = Geopolitical' b"
| "get_count b Monetary = Monetary' b"
| "get_count b Commodity = Commodity' b"
| "get_count b SupplyChain = SupplyChain' b"
| "get_count b General = General' b"

fun set_count :: "RiskCategory \<Rightarrow> number \<Rightarrow> CategoryBreakdown \<Rightarrow> CategoryBreakdown" where
  "set_count Geopolitical v b = b\<lparr>Geopolitical' := v\<rparr>"
| "set_count Monetary v b = b\<lparr>Monetary' := v\<rparr>"
| "set_count Commodity v b = b\<lparr>Commodity' := v\<rparr>"
| "set_count SupplyChain v b = b\<lparr>SupplyChain' := v\<rparr>"
| "set_count General v b = b\<lparr>General' := v\<rparr>"

definition entries :: "CategoryBreakdown \<Rightarrow> (RiskCategory \<times> number) list" where
  "entries b = [(Geopolitical, Geopolitical' b), (Monetary, Monetary' b),
     (Commodity, Commodity' b), (SupplyChain, SupplyChain' b), (General, General' b)]"


section \<open>Keyword dictionaries, weights and severity tiers\<close>

definition KEYWORDS :: "(RiskCategory \<times> string list) list" where
  "KEYWORDS = [
    (Geopolitical, [
      ''war'', ''conflict'', ''sanction'', ''geopolitic'', ''military'', ''coup'',
      ''invasion'', ''nuclear'', ''treaty'', ''nato'', ''terrorism'', ''ceasefire'',
      ''troops'', ''missile'', ''airstrike'', ''alliance'', ''diplomatic crisis'',
      ''political instability'', ''rebel'', ''insurgency'', ''annexation'']),
    (Monetary, [
      ''inflation'', ''interest rate'', ''central bank'', ''federal reserve'',
      ''fed rate'', ''ecb'', ''monetary policy'', ''rate hike'', ''rate cut'',
      ''quantitative easing'', ''currency'', ''deflation'', ''stagflation'',
      ''bond yield'', ''treasury'', ''repo rate'', ''liquidity'']),
    (Commodity, [
      ''oil'', ''gold'', ''commodity'', ''energy'', ''crude oil'', ''brent'',
      ''opec'', ''fuel'', ''copper'', ''wheat'', ''food price'', ''grain'',
      ''natural gas'', ''lng'', ''rare earth'', ''silver'', ''coffee'']),
    (SupplyChain, [
      ''supply chain'', ''logistics'', ''shortage'', ''disruption'', ''trade war'',
      ''tariff'', ''import ban'', ''export ban'', ''shipping'', ''port'',
      ''semiconductor'', ''chip shortage'', ''freight'', ''factory shutdown'',
      ''manufacturing'', ''inventory'', ''bottleneck'']),
    (General, [])]"

text \<open>The literals \<open>0.90\<close>, \<open>0.80\<close>, \<open>0.70\<close> and \<open>0.30\<close> denote the nearest binary64 values.\<close>

fun CATEGORY_WEIGHT :: "RiskCategory \<Rightarrow> number" where
  "CATEGORY_WEIGHT Geopolitical = fl 1"
| "CATEGORY_WEIGHT Monetary = fl (9 / 10)"
| "CATEGORY_WEIGHT Commodity = fl (8 / 10)"
| "CATEGORY_WEIGHT SupplyChain = fl (7 / 10)"
| "CATEGORY_WEIGHT General = fl (3 / 10)"

record SeverityTier =
  words :: "string list"
  boost :: number

definition SEVERITY_TIERS :: "SeverityTier list" where
  "SEVERITY_TIERS = [
    \<lparr>words = [
      ''war'', ''crash'', ''collapse'', ''invasion'', ''nuclear'', ''catastrophic'',
      ''emergency'', ''meltdown'', ''default'', ''hyperinflation'', ''famine''],
     boost = 40\<rparr>,
    \<lparr>words = [
      ''surge'', ''spike'', ''sanction'', ''recession'', ''shock'', ''escalation'',
      ''plunge'', ''ban'', ''freeze'', ''blockade'', ''halt''],
     boost = 25\<rparr>,
    \<lparr>words = [
      ''rise'', ''increase'', ''concern'', ''tension'', ''risk'', ''volatile'',
      ''warning'', ''threat'', ''instability'', ''downgrade'', ''slowdown''],
     boost = 12\<rparr>]"

definition BASELINE_BOOST :: number where
  "BASELINE_BOOST = 5"


section \<open>Private helpers\<close>

text \<open>
  \<open>result[cat] = matched\<close> on an object: an existing key keeps its place, a new key
  goes to the end.
\<close>

fun assign :: "'k \<Rightarrow> 'v \<Rightarrow> ('k \<times> 'v) list \<Rightarrow> ('k \<times> 'v) list" where
  "assign k v [] = [(k, v)]"
| "assign k v (p # ps) = (if fst p = k then (k, v) # ps else p # assign k v ps)"

text \<open>The body of the loop of \<open>matchKeywords\<close>.\<close>

definition match_step ::
  "string \<Rightarrow> RiskCategory \<times> string list \<Rightarrow> KeywordMatches \<Rightarrow> KeywordMatches" where
  "match_step lower = (\<lambda>(cat, ws) result.
     let matched = filter (\<lambda>w. str_includes lower w) ws in
     if length matched > 0 then assign cat matched result else result)"

definition matchKeywords :: "string \<Rightarrow> KeywordMatches" where
  "matchKeywords text = (let lower = lc text in fold (match_step lower) KEYWORDS [])"

definition pick_step ::
  "RiskCategory \<times> string list \<Rightarrow> RiskCategory \<times> number \<Rightarrow> RiskCategory \<times> number" where
  "pick_step = (\<lambda>(cat, ws) (best, bestScore).
     let score = js_mul (of_nat (length ws)) (CATEGORY_WEIGHT cat) in
     if score > bestScore then (cat, score) else (best, bestScore))"

definition pickCategory :: "KeywordMatches \<Rightarrow> RiskCategory" where
  "pickCategory matches = fst (fold pick_step matches (General, - 1))"

fun scan_tiers :: "string \<Rightarrow> SeverityTier list \<Rightarrow> number" where
  "scan_tiers lower [] = BASELINE_BOOST"
| "scan_tiers lower (tier # rest) =
     (if list_ex (\<lambda>w. str_includes lower w) (words tier) then boost tier
      else scan_tiers lower rest)"

definition severityBoost :: "string \<Rightarrow> number" where
  "severityBoost text = (let lower = lc text in scan_tiers lower SEVERITY_TIERS)"

definition clamp :: "number \<Rightarrow> number \<Rightarrow> number \<Rightarrow> number" where
  "clamp v mn mx = max mn (min mx v)"


section \<open>Scoring\<close>

definition scoreArticle :: "RiskCategory \<Rightarrow> string \<Rightarrow> number" where
  "scoreArticle category text =
     (let base = js_mul (CATEGORY_WEIGHT category) 60;
          boost = severityBoost text
      in clamp (Math_round (js_add base boost)) 0 100)"

definition toImpactLevel :: "number \<Rightarrow> ImpactLevel" where
  "toImpactLevel score =
     (if score \<le> 30 then LOW else if score \<le> 70 then MEDIUM else HIGH)"


section \<open>Public API\<close>

text \<open>The template string \<open>`${a.title ?? ""} ${a.description ?? ""}`\<close>.\<close>

definition article_text :: "RawArticle \<Rightarrow> string" where
  "article_text a = RawArticle.title a @ '' '' @
     (case RawArticle.description a of None \<Rightarrow> '''' | Some d \<Rightarrow> d)"

text \<open>Step 1, the function mapped over \<open>rawArticles\<close>.\<close>

definition classify_one :: "RawArticle \<Rightarrow> ClassifiedArticle" where
  "classify_one a =
     (let text = article_text a;
          matches = matchKeywords text;
          category = pickCategory matches;
          score = scoreArticle category text;
          sourceName = (case RawArticle.source a of
                          SourceString s \<Rightarrow> s
                        | SourceObject (Some n) \<Rightarrow> n
                        | SourceObject None \<Rightarrow> ''Unknown''
                        | SourceMissing \<Rightarrow> ''Unknown'')
      in \<lparr>title = RawArticle.title a,
          description = (case RawArticle.description a of None \<Rightarrow> '''' | Some d \<Rightarrow> d),
          source = sourceName,
          url = RawArticle.url a,
          publishedAt = RawArticle.publishedAt a,
          riskCategory = category,
          articleScore = score,
          keywordMatches = matches\<rparr>)"

text \<open>Step 2, the loop accumulating \<open>weightedSum\<close> and \<open>totalWeight\<close>.\<close>

definition totals_step :: "ClassifiedArticle \<Rightarrow> number \<times> number \<Rightarrow> number \<times> number" where
  "totals_step a = (\<lambda>(weightedSum, totalWeight).
     let w = CATEGORY_WEIGHT (riskCategory a) in
     (js_add weightedSum (js_mul (articleScore a) w), js_add totalWeight w))"

definition totals :: "ClassifiedArticle list \<Rightarrow> number \<times> number" where
  "totals classified = fold totals_step classified (0, 0)"

definition overall :: "ClassifiedArticle list \<Rightarrow> number option" where
  "overall classified = (case totals classified of (weightedSum, totalWeight) \<Rightarrow>
     if totalWeight > 0
     then do { q \<leftarrow> js_div weightedSum totalWeight; Some (clamp (Math_round q) 0 100) }
     else Some 0)"

text \<open>Step 3, \<open>counts[a.riskCategory]++\<close> and the percentages.\<close>

definition count_step :: "ClassifiedArticle \<Rightarrow> CategoryBreakdown \<Rightarrow> CategoryBreakdown" where
  "count_step a counts =
     set_count (riskCategory a) (js_add (get_count counts (riskCategory a)) 1) counts"

definition count_categories :: "ClassifiedArticle list \<Rightarrow> CategoryBreakdown" where
  "count_categories classified = fold count_step classified
     \<lparr>Geopolitical' = 0, Monetary' = 0, Commodity' = 0, SupplyChain' = 0, General' = 0\<rparr>"

definition total_or_one :: "ClassifiedArticle list \<Rightarrow> number" where
  \<comment> \<open>\<open>classified.length || 1\<close>\<close>
  "total_or_one classified =
     (if length classified = 0 then 1 else of_nat (length classified))"

definition percentage :: "number \<Rightarrow> number \<Rightarrow> number option" where
  "percentage n total' = do { q \<leftarrow> js_div n total'; Some (Math_round (js_mul q 100)) }"

text \<open>Step 4, the loop over \<open>Object.entries(counts)\<close>.\<close>

definition dominant_step ::
  "RiskCategory \<times> number \<Rightarrow> RiskCategory \<times> number \<Rightarrow> RiskCategory \<times> number" where
  "dominant_step = (\<lambda>(cat, n) (dominant, domScore).
     let s = js_mul n (CATEGORY_WEIGHT cat) in
     if s > domScore then (cat, s) else (dominant, domScore))"

definition dominant_of :: "CategoryBreakdown \<Rightarrow> RiskCategory" where
  "dominant_of counts = fst (fold dominant_step (entries counts) (General, - 1))"

text \<open>
  The result is \<open>None\<close> if one of its numbers were \<open>NaN\<close> or an infinity; by
  \<open>classifyArticles_total\<close> this never happens.
\<close>

definition classifyArticles :: "RawArticle list \<Rightarrow> AssessmentResult option" where
  "classifyArticles rawArticles =
     (let classified = map classify_one rawArticles in
      do {
        overallScore \<leftarrow> overall classified;
        let counts = count_categories classified;
        let total' = total_or_one classified;
        geopolitical \<leftarrow> percentage (Geopolitical' counts) total';
        monetary \<leftarrow> percentage (Monetary' counts) total';
        commodity \<leftarrow> percentage (Commodity' counts) total';
        supplyChain \<leftarrow> percentage (SupplyChain' counts) total';
        general \<leftarrow> percentage (General' counts) total';
        let categoryBreakdown =
          \<lparr>Geopolitical' = geopolitical, Monetary' = monetary, Commodity' = commodity,
           SupplyChain' = supplyChain, General' = general\<rparr>;
        let dominant = dominant_of counts;
        Some \<lparr>overallScore = overallScore,
              impactLevel = toImpactLevel overallScore,
              dominantCategory = dominant,
              categoryBreakdown = categoryBreakdown,
              articles = classified\<rparr>
      })"


section \<open>Sample inputs\<close>

definition sample_article :: RawArticle where
  "sample_article = \<lparr>RawArticle.title = ''Oil prices surge amid WAR'',
     description = Some ''Central bank inflation warning'',
     source = SourceObject (Some ''Reuters''), url = ''https://example.org/a'',
     publishedAt = ''2024-05-01T10:00:00Z''\<rparr>"

definition quiet_article :: RawArticle where
  "quiet_article = \<lparr>RawArticle.title = ''Quiet day at the markets'', description = None,
     source = SourceString ''Wire'', url = ''https://example.org/q'',
     publishedAt = ''2024-05-02T08:00:00Z''\<rparr>"

definition crash_article :: RawArticle where
  "crash_article = \<lparr>RawArticle.title = ''Market crash'', description = None,
     source = SourceMissing, url = ''https://example.org/c'',
     publishedAt = ''2024-05-03T08:00:00Z''\<rparr>"

definition troops_article :: RawArticle where
  "troops_article = \<lparr>RawArticle.title = ''Troops cross the border'',
     description = Some ''Neighbours protest'', source = SourceObject None,
     url = ''https://example.org/t'', publishedAt = ''2024-05-04T08:00:00Z''\<rparr>"

definition sample_batch :: "RawArticle list" where
  "sample_batch = [sample_article, quiet_article, troops_article]"

text \<open>
  Three keywords of \<open>Geopolitical\<close> against four of \<open>SupplyChain\<close>, and four
  keywords of \<open>Geopolitical\<close> against five of \<open>Commodity\<close>.
\<close>

definition tariff_text :: string where
  "tariff_text = ''War: troops and missile fire. Tariff on shipping, freight shortage''"

definition copper_text :: string where
  "copper_text = ''Military coup ends conflict and war. Oil, gold, fuel, copper, wheat''"

text \<open>Forty articles, twenty-three of them in the category \<open>Geopolitical\<close>.\<close>

definition half_batch :: "RawArticle list" where
  "half_batch = replicate 23 troops_article @ replicate 17 quiet_article"


section \<open>Notions of the specification\<close>

text \<open>
  The score of one entry of a keyword mapping: the number of matched keywords times the
  weight of the category, a multiplication of JavaScript numbers.
\<close>

definition match_score :: "RiskCategory \<times> string list \<Rightarrow> number" where
  "match_score = (\<lambda>(cat, ws). js_mul (of_nat (length ws)) (CATEGORY_WEIGHT cat))"

text \<open>
  The article score in the words of the specification, in exact arithmetic: the base
  weights are the decimal fractions 1.00, 0.90, 0.80, 0.70 and 0.30, and the sum is
  rounded half up and clamped to \<open>[0, 100]\<close>.
\<close>

fun baseWeight :: "RiskCategory \<Rightarrow> rat" where
  "baseWeight Geopolitical = 1"
| "baseWeight Monetary = 9 / 10"
| "baseWeight Commodity = 8 / 10"
| "baseWeight SupplyChain = 7 / 10"
| "baseWeight General = 3 / 10"

definition round_half_up :: "rat \<Rightarrow> rat" where
  "round_half_up x = of_int \<lfloor>x + 1 / 2\<rfloor>"

definition spec_articleScore :: "RiskCategory \<Rightarrow> string \<Rightarrow> rat" where
  "spec_articleScore category text =
     max 0 (min 100 (round_half_up (baseWeight category * 60 + severityBoost text)))"

text \<open>
  The score in the words of the specification, in exact arithmetic:
  \<open>matchCount \<times> baseWeight\<close> with the decimal base weights.
\<close>

definition exact_score :: "RiskCategory \<times> string list \<Rightarrow> rat" where
  "exact_score = (\<lambda>(cat, ws). of_nat (length ws) * baseWeight cat)"

text \<open>
  Position \<open>i\<close> holds the first greatest value of \<open>f\<close> in \<open>xs\<close>: no element has a greater
  value, and every element before position \<open>i\<close> has a strictly smaller one.
\<close>

definition first_max :: "('a \<Rightarrow> number) \<Rightarrow> 'a list \<Rightarrow> nat \<Rightarrow> bool" where
  "first_max f xs i \<longleftrightarrow> i < length xs \<and> (\<forall>y \<in> set xs. f y \<le> f (xs ! i)) \<and>
     (\<forall>y \<in> set (take i xs). f y < f (xs ! i))"

text \<open>The body shared by the two loops that keep the best entry seen so far.\<close>

definition best_step ::
  "('a \<Rightarrow> number) \<Rightarrow> ('a \<Rightarrow> 'c) \<Rightarrow> 'a \<Rightarrow> 'c \<times> number \<Rightarrow> 'c \<times> number" where
  "best_step f key x acc = (if f x > snd acc then (key x, f x) else acc)"


text \<open>
  The keyword mapping in the words of the specification: for every category of the
  dictionary, in the order of the dictionary, the keywords that occur in the lower-cased
  text, without the categories where none occurs.
\<close>

definition dictionary_matches :: "string \<Rightarrow> KeywordMatches" where
  "dictionary_matches text =
     filter (\<lambda>(cat, ws). ws \<noteq> [])
       (map (\<lambda>(cat, ws). (cat, filter (\<lambda>w. sublist w (lc text)) ws)) KEYWORDS)"


text \<open>No keyword of any category, and no word of any severity tier, occurs in the text.\<close>

definition no_category_keyword :: "string \<Rightarrow> bool" where
  "no_category_keyword text \<longleftrightarrow>
     (\<forall>(cat, ws) \<in> set KEYWORDS. \<forall>w \<in> set ws. \<not> sublist w (lc text))"

definition no_severity_keyword :: "string \<Rightarrow> bool" where
  "no_severity_keyword text \<longleftrightarrow>
     (\<forall>tier \<in> set SEVERITY_TIERS. \<forall>w \<in> set (words tier). \<not> sublist w (lc text))"


text \<open>The number of classified articles of a category, and the sum of a breakdown.\<close>

definition category_count :: "RiskCategory \<Rightarrow> ClassifiedArticle list \<Rightarrow> nat" where
  "category_count c classified = length (filter (\<lambda>a. riskCategory a = c) classified)"

definition breakdown_sum :: "CategoryBreakdown \<Rightarrow> number" where
  "breakdown_sum b = Geopolitical' b + Monetary' b + Commodity' b + SupplyChain' b + General' b"


text \<open>The score of one entry of the counts: the count times the weight of the category.\<close>

definition dominant_score :: "RiskCategory \<times> number \<Rightarrow> number" where
  "dominant_score = (\<lambda>(cat, n). js_mul n (CATEGORY_WEIGHT cat))"


text \<open>
  The percentage of a count in a total other than 0, as the code evaluates it: the
  quotient and the product are rounded to binary64 before \<open>Math.round\<close>.
\<close>

definition binary64_percentage :: "number \<Rightarrow> number \<Rightarrow> number" where
  "binary64_percentage n t = Math_round (fl (fl (n / t) * 100))"

text \<open>The count and the percentage of a category in an assessment.\<close>

definition count_in :: "RiskCategory \<Rightarrow> AssessmentResult \<Rightarrow> nat" where
  "count_in c r = category_count c (articles r)"

definition percent_in :: "RiskCategory \<Rightarrow> AssessmentResult \<Rightarrow> number" where
  "percent_in c r = get_count (categoryBreakdown r) c"

text \<open>
  The percentage in the words of the specification, in exact arithmetic:
  \<open>round(count / total \<times> 100)\<close>, rounding half up. The value \<open>count / total \<times> 100\<close> lies
  halfway between two integers when \<open>200 \<times> count + total\<close> is a multiple of
  \<open>2 \<times> total\<close>.
\<close>

definition spec_percentage :: "nat \<Rightarrow> nat \<Rightarrow> rat" where
  "spec_percentage k n = round_half_up (of_nat k / of_nat n * 100)"

definition halfway :: "nat \<Rightarrow> nat \<Rightarrow> bool" where
  "halfway k n \<longleftrightarrow> (2 * n) dvd (200 * k + n)"

text \<open>
  The position of a category in the dictionary and the number of its keywords. A mapping
  built by the matcher keeps the order of the dictionary and holds at most that many
  keywords for a category.
\<close>

fun category_rank :: "RiskCategory \<Rightarrow> nat" where
  "category_rank Geopolitical = 0"
| "category_rank Monetary = 1"
| "category_rank Commodity = 2"
| "category_rank SupplyChain = 3"
| "category_rank General = 4"

fun dictionary_size :: "RiskCategory \<Rightarrow> nat" where
  "dictionary_size Geopolitical = 21"
| "dictionary_size Monetary = 17"
| "dictionary_size Commodity = 17"
| "dictionary_size SupplyChain = 17"
| "dictionary_size General = 0"

definition keyword_mapping :: "KeywordMatches \<Rightarrow> bool" where
  "keyword_mapping m \<longleftrightarrow>
     sorted_wrt (\<lambda>a b. category_rank (fst a) < category_rank (fst b)) m \<and>
     (\<forall>(cat, ws) \<in> set m. length ws \<le> dictionary_size cat)"

text \<open>The base weights in tenths.\<close>

fun tenths :: "RiskCategory \<Rightarrow> nat" where
  "tenths Geopolitical = 10"
| "tenths Monetary = 9"
| "tenths Commodity = 8"
| "tenths SupplyChain = 7"
| "tenths General = 3"


section \<open>The result record, field by field\<close>

lemma js_div_zero: "js_div a 0 = None"
  by (simp add: js_div_def)

lemma js_div_nonzero: "b \<noteq> 0 \<Longrightarrow> js_div a b = Some (fl (a / b))"
  by (simp add: js_div_def)

lemma overall_value:
  "overall cs = Some (case totals cs of (weightedSum, totalWeight) \<Rightarrow>
     if totalWeight > 0 then clamp (Math_round (fl (weightedSum / totalWeight))) 0 100 else 0)"
  by (simp add: overall_def js_div_def split: prod.split)

lemma total_or_one_pos: "0 < total_or_one cl"
  by (simp add: total_or_one_def)

lemma percentage_value: "t \<noteq> 0 \<Longrightarrow> percentage n t = Some (binary64_percentage n t)"
  by (simp add: percentage_def js_div_def js_mul_def binary64_percentage_def)

lemma percentage_total_or_one:
  "percentage n (total_or_one cl) = Some (binary64_percentage n (total_or_one cl))"
  using total_or_one_pos [of cl] by (intro percentage_value) simp

lemma classifyArticles_Some:
  obtains r where "classifyArticles rs = Some r"
    and "articles r = map classify_one rs"
    and "overall (map classify_one rs) = Some (overallScore r)"
    and "impactLevel r = toImpactLevel (overallScore r)"
    and "dominantCategory r = dominant_of (count_categories (map classify_one rs))"
    and "\<And>c. get_count (categoryBreakdown r) c =
      binary64_percentage (get_count (count_categories (map classify_one rs)) c)
        (total_or_one (map classify_one rs))"
proof -
  let ?cl = "map classify_one rs"
  let ?counts = "count_categories ?cl"
  let ?t = "total_or_one ?cl"
  obtain s where s: "overall ?cl = Some s" by (simp add: overall_value)
  define r where "r = \<lparr>overallScore = s, impactLevel = toImpactLevel s,
    dominantCategory = dominant_of ?counts,
    categoryBreakdown =
      \<lparr>Geopolitical' = binary64_percentage (Geopolitical' ?counts) ?t,
       Monetary' = binary64_percentage (Monetary' ?counts) ?t,
       Commodity' = binary64_percentage (Commodity' ?counts) ?t,
       SupplyChain' = binary64_percentage (SupplyChain' ?counts) ?t,
       General' = binary64_percentage (General' ?counts) ?t\<rparr>,
    articles = ?cl\<rparr>"
  have "classifyArticles rs = Some r"
    by (simp add: classifyArticles_def Let_def s percentage_total_or_one r_def)
  moreover have "get_count (categoryBreakdown r) c =
      binary64_percentage (get_count ?counts c) ?t" for c
    by (cases c) (simp_all add: r_def)
  ultimately show ?thesis using s by (intro that [of r]) (simp_all add: r_def)
qed

lemma classifyArticles_result:
  "\<exists>r. classifyArticles rs = Some r \<and> articles r = map classify_one rs \<and>
     overall (map classify_one rs) = Some (overallScore r) \<and>
     dominantCategory r = dominant_of (count_categories (map classify_one rs)) \<and>
     (\<forall>c. get_count (categoryBreakdown r) c =
        binary64_percentage (get_count (count_categories (map classify_one rs)) c)
          (total_or_one (map classify_one rs)))"
  by (rule classifyArticles_Some [of rs]) blast

lemma classifyArticles_total: "\<exists>r. classifyArticles rs = Some r"
  by (rule classifyArticles_Some [of rs]) blast

lemma articleScore_classify_one:
  "articleScore (classify_one a) =
     scoreArticle (pickCategory (matchKeywords (article_text a))) (article_text a)"
  by (simp add: classify_one_def Let_def)


section \<open>Rounding to a binary64 value\<close>

lemma bitlen_powi_lower:
  assumes "0 < p"
  shows "(2::rat) powi (bitlen p - 1) \<le> of_int p"
proof -
  from assms have b: "1 \<le> bitlen p" by (auto simp add: bitlen_alt_def)
  from bitlen_bounds [OF assms] have "2 ^ nat (bitlen p - 1) \<le> p" by simp
  then have "(of_int (2 ^ nat (bitlen p - 1)) :: rat) \<le> of_int p" by (simp only: of_int_le_iff)
  with b show ?thesis by (simp add: power_int_nonneg_exp)
qed

lemma bitlen_powi_upper:
  assumes "0 < p"
  shows "of_int p < (2::rat) powi bitlen p"
proof -
  from bitlen_bounds [OF assms] have "p < 2 ^ nat (bitlen p)" by simp
  then have "(of_int p :: rat) < of_int (2 ^ nat (bitlen p))" by (simp only: of_int_less_iff)
  then show ?thesis by (simp add: power_int_nonneg_exp bitlen_nonneg)
qed

lemma ilog2_bounds:
  assumes "0 < x"
  shows "2 powi (ilog2 x) \<le> x \<and> x < 2 powi (ilog2 x + 1)"
proof -
  obtain p q where pq: "quotient_of x = (p, q)" by (cases "quotient_of x")
  from quotient_of_denom_pos [OF pq] have q: "0 < q" .
  from quotient_of_div [OF pq] have x: "x = of_int p / of_int q" .
  from assms x q have p: "0 < p" by (simp add: zero_less_divide_iff)
  define k where "k = bitlen p - bitlen q"
  have "2 powi (bitlen p - 1) / 2 powi bitlen q \<le> (of_int p :: rat) / of_int q"
    using bitlen_powi_lower [OF p] bitlen_powi_upper [OF q] p q
    by (intro frac_le) simp_all
  moreover have "k - 1 = (bitlen p - 1) - bitlen q" by (simp add: k_def)
  then have "(2::rat) powi (k - 1) = 2 powi (bitlen p - 1) / 2 powi bitlen q"
    by (simp only: power_int_diff [of "2::rat", simplified])
  ultimately have lo: "2 powi (k - 1) \<le> x" by (simp only: x)
  have "(of_int p :: rat) / of_int q < 2 powi bitlen p / 2 powi (bitlen q - 1)"
    using bitlen_powi_lower [OF q] bitlen_powi_upper [OF p] p
    by (intro frac_less) simp_all
  moreover have "k + 1 = bitlen p - (bitlen q - 1)" by (simp add: k_def)
  then have "(2::rat) powi (k + 1) = 2 powi bitlen p / 2 powi (bitlen q - 1)"
    by (simp only: power_int_diff [of "2::rat", simplified])
  ultimately have hi: "x < 2 powi (k + 1)" by (simp only: x)
  have e: "ilog2 x = (if 2 powi k \<le> x then k else k - 1)"
    by (simp add: ilog2_def pq k_def Let_def)
  show ?thesis
  proof (cases "2 powi k \<le> x")
    case True
    with e hi show ?thesis by simp
  next
    case False
    with e lo show ?thesis by simp
  qed
qed

lemma round_even_error: "\<bar>of_int (round_even y) - y\<bar> \<le> 1 / 2"
proof -
  have "of_int \<lfloor>y\<rfloor> \<le> y" and "y < of_int \<lfloor>y\<rfloor> + 1" by linarith+
  then show ?thesis by (auto simp add: round_even_def Let_def abs_le_iff)
qed

lemma round_even_of_int: "round_even (of_int m) = m"
  by (simp add: round_even_def)

lemma fl_pos_unfold:
  assumes "0 < x"
  shows "fl x = of_int (round_even (x / 2 powi (ilog2 x - 52))) * 2 powi (ilog2 x - 52)"
  using assms by (simp add: fl_def Let_def)

lemma fl_error:
  assumes "0 < x"
  shows "\<bar>fl x - x\<bar> \<le> x / 2 ^ 53"
proof -
  define u :: rat where "u = 2 powi (ilog2 x - 52)"
  have u: "0 < u" by (simp add: u_def)
  have "fl x - x = (of_int (round_even (x / u)) - x / u) * u"
    using u by (simp add: fl_pos_unfold [OF assms] u_def [symmetric] algebra_simps)
  then have "\<bar>fl x - x\<bar> = \<bar>of_int (round_even (x / u)) - x / u\<bar> * u"
    using u by (simp add: abs_mult)
  also have "\<dots> \<le> 1 / 2 * u"
    using u round_even_error [of "x / u"] by (intro mult_right_mono) simp_all
  also have "u = 2 powi (ilog2 x) / 2 ^ 52"
    by (simp add: u_def power_int_diff)
  also have "1 / 2 * (2 powi (ilog2 x) / 2 ^ 52) \<le> 1 / 2 * (x / 2 ^ 52)"
    using ilog2_bounds [OF assms] by (simp add: divide_right_mono)
  finally show ?thesis by simp
qed

lemma fl_of_nat:
  assumes "n < 2 ^ 53"
  shows "fl (of_nat n) = of_nat n"
proof (cases "n = 0")
  case True
  then show ?thesis by (simp add: fl_def)
next
  case False
  define x :: rat where "x = of_nat n"
  from False have x: "0 < x" and x1: "1 \<le> x" by (simp_all add: x_def)
  define e where "e = ilog2 x"
  from ilog2_bounds [OF x] have lo: "2 powi e \<le> x" and hi: "x < 2 powi (e + 1)"
    by (simp_all add: e_def)
  from assms have "x < 2 ^ 53" unfolding x_def
    by (metis of_nat_less_iff of_nat_numeral of_nat_power)
  with lo have "(2::rat) powi e < 2 powi 53" by simp
  then have e53: "e < 53" by (rule power_int_le_imp_less_exp [rotated]) simp_all
  have "\<not> e + 1 \<le> 0"
  proof
    assume "e + 1 \<le> 0"
    from power_int_increasing [OF this, of "2::rat"] have "(2::rat) powi (e + 1) \<le> 1" by simp
    with x1 hi show False by simp
  qed
  then have e0: "0 \<le> e" by simp
  define d where "d = nat (52 - e)"
  have u: "(2::rat) powi (e - 52) = 1 / 2 ^ d"
    using e53 by (simp add: d_def power_int_def inverse_eq_divide power_one_over)
  have "x / 2 powi (e - 52) = of_int (int n * 2 ^ d)"
    by (simp add: u x_def)
  then have "round_even (x / 2 powi (e - 52)) = int n * 2 ^ d"
    by (simp only: round_even_of_int)
  then have "fl x = of_int (int n * 2 ^ d) * (1 / 2 ^ d)"
    by (simp add: fl_pos_unfold [OF x] e_def [symmetric] u)
  then show ?thesis by (simp add: x_def)
qed

lemma fl_zero: "fl 0 = 0"
  by (simp add: fl_def)

lemma fl_rel_error: "0 \<le> y \<Longrightarrow> \<bar>fl y - y\<bar> \<le> y / 2 ^ 53"
  using fl_error [of y] by (cases "y = 0") (simp_all add: fl_zero)

lemma Math_round_error: "\<bar>Math_round x - x\<bar> \<le> 1 / 2"
proof -
  have "of_int \<lfloor>x + 1 / 2\<rfloor> \<le> x + 1 / 2" and "x + 1 / 2 < of_int \<lfloor>x + 1 / 2\<rfloor> + 1"
    by linarith+
  then show ?thesis unfolding Math_round_def by linarith
qed


subsection \<open>Signs, and the values of the weights\<close>

lemma round_even_nonneg: "0 \<le> y \<Longrightarrow> 0 \<le> round_even y"
  by (simp add: round_even_def Let_def)

lemma fl_nonneg: "0 \<le> x \<Longrightarrow> 0 \<le> fl x"
  by (simp add: fl_def Let_def round_even_nonneg)

lemma weight_Geopolitical: "CATEGORY_WEIGHT Geopolitical = 1"
  by code_simp

lemma weight_Monetary: "CATEGORY_WEIGHT Monetary = 8106479329266893 / 9007199254740992"
  by code_simp

lemma weight_Commodity: "CATEGORY_WEIGHT Commodity = 3602879701896397 / 4503599627370496"
  by code_simp

lemma weight_SupplyChain: "CATEGORY_WEIGHT SupplyChain = 3152519739159347 / 4503599627370496"
  by code_simp

lemma weight_General: "CATEGORY_WEIGHT General = 5404319552844595 / 18014398509481984"
  by code_simp

lemmas weight_values =
  weight_Geopolitical weight_Monetary weight_Commodity weight_SupplyChain weight_General

lemma CATEGORY_WEIGHT_pos: "0 < CATEGORY_WEIGHT c"
  by (cases c) (simp_all del: CATEGORY_WEIGHT.simps add: weight_values)

lemma js_mul_nonneg: "0 \<le> a \<Longrightarrow> 0 \<le> b \<Longrightarrow> 0 \<le> js_mul a b"
  by (simp add: js_mul_def fl_nonneg)


section \<open>The keyword matcher\<close>

lemma assign_fresh: "k \<notin> fst ` set m \<Longrightarrow> assign k v m = m @ [(k, v)]"
  by (induction m) auto

lemma fold_match_step:
  assumes "distinct (map fst kws)" and "fst ` set acc \<inter> fst ` set kws = {}"
  shows "fold (match_step lower) kws acc =
     acc @ filter (\<lambda>(cat, ws). ws \<noteq> [])
       (map (\<lambda>(cat, ws). (cat, filter (\<lambda>w. sublist w lower) ws)) kws)"
  using assms
proof (induction kws arbitrary: acc)
  case Nil
  then show ?case by simp
next
  case (Cons e kws)
  obtain cat ws where e: "e = (cat, ws)" by (cases e)
  from Cons.prems have fresh: "cat \<notin> fst ` set acc" and d: "distinct (map fst kws)"
    and nk: "cat \<notin> fst ` set kws" and disj: "fst ` set acc \<inter> fst ` set kws = {}"
    using e by auto
  show ?case
  proof (cases "filter (\<lambda>w. sublist w lower) ws = []")
    case True
    then have "match_step lower e acc = acc"
      by (simp add: match_step_def e str_includes_def)
    with Cons.IH [OF d disj] True show ?thesis by (simp add: e)
  next
    case False
    then have step: "match_step lower e acc = acc @ [(cat, filter (\<lambda>w. sublist w lower) ws)]"
      by (simp add: match_step_def e str_includes_def assign_fresh [OF fresh])
    have "fst ` set (acc @ [(cat, filter (\<lambda>w. sublist w lower) ws)]) \<inter> fst ` set kws = {}"
      using disj nk by auto
    from Cons.IH [OF d this] step False show ?thesis by (simp add: e)
  qed
qed

lemma matchKeywords_fold: "matchKeywords text = fold (match_step (lc text)) KEYWORDS []"
  by (simp add: matchKeywords_def Let_def)

lemma distinct_KEYWORDS: "distinct (map fst KEYWORDS)"
  by (simp add: KEYWORDS_def)

lemma matchKeywords_dictionary: "matchKeywords text = dictionary_matches text"
  using fold_match_step [OF distinct_KEYWORDS, of "[]" "lc text"]
  by (simp add: matchKeywords_fold dictionary_matches_def)

lemma General_keywords: "(General, ws) \<in> set KEYWORDS \<Longrightarrow> ws = []"
  by (simp add: KEYWORDS_def)

lemma General_not_matched: "General \<notin> fst ` set (matchKeywords text)"
proof
  assume "General \<in> fst ` set (matchKeywords text)"
  then obtain ms where "(General, ms) \<in> set (dictionary_matches text)"
    by (auto simp add: matchKeywords_dictionary)
  then obtain ws where "(General, ws) \<in> set KEYWORDS"
    and "ms = filter (\<lambda>w. sublist w (lc text)) ws" and "ms \<noteq> []"
    by (auto simp add: dictionary_matches_def)
  then show False by (auto dest: General_keywords)
qed

lemma keywordMatches_classify_one:
  "keywordMatches (classify_one a) = matchKeywords (article_text a)"
  by (simp add: classify_one_def Let_def)

lemma riskCategory_classify_one:
  "riskCategory (classify_one a) = pickCategory (matchKeywords (article_text a))"
  by (simp add: classify_one_def Let_def)

text \<open>
  Claim C8: the keyword mapping of an article is computed from the text
  \<open>title + " " + description\<close>, with the empty string for a missing description. For
  every category of the dictionary, in the order of the dictionary, it holds the keywords
  that occur in the lower-cased text, in the order of the keyword list; a category
  without such a keyword is left out. \<open>General\<close> is never a key of the mapping.
\<close>

theorem matchKeywords_spec:
  "keywordMatches (classify_one a) =
     matchKeywords (RawArticle.title a @ '' '' @
       (case RawArticle.description a of None \<Rightarrow> '''' | Some d \<Rightarrow> d)) \<and>
   matchKeywords text =
     filter (\<lambda>(cat, ws). ws \<noteq> [])
       (map (\<lambda>(cat, ws). (cat, filter (\<lambda>w. sublist w (lc text)) ws)) KEYWORDS) \<and>
   General \<notin> fst ` set (matchKeywords text) \<and>
   map fst KEYWORDS = [Geopolitical, Monetary, Commodity, SupplyChain, General]"
proof (intro conjI)
  show "keywordMatches (classify_one a) =
     matchKeywords (RawArticle.title a @ '' '' @
       (case RawArticle.description a of None \<Rightarrow> '''' | Some d \<Rightarrow> d))"
    by (simp add: keywordMatches_classify_one article_text_def)
  show "matchKeywords text =
     filter (\<lambda>(cat, ws). ws \<noteq> [])
       (map (\<lambda>(cat, ws). (cat, filter (\<lambda>w. sublist w (lc text)) ws)) KEYWORDS)"
    using matchKeywords_dictionary [of "text"] by (simp add: dictionary_matches_def)
  show "General \<notin> fst ` set (matchKeywords text)" by (rule General_not_matched)
  show "map fst KEYWORDS = [Geopolitical, Monetary, Commodity, SupplyChain, General]"
    by (simp add: KEYWORDS_def)
qed

theorem matchKeywords_spec_witness:
  "matchKeywords ''Warranty claims at the port'' =
     [(Geopolitical, [''war'']), (SupplyChain, [''port''])]"
proof -
  have "filter (\<lambda>(cat, ws). ws \<noteq> [])
          (map (\<lambda>(cat, ws). (cat, filter (\<lambda>w. sublist w (lc ''Warranty claims at the port'')) ws))
             KEYWORDS) =
        [(Geopolitical, [''war'']), (SupplyChain, [''port''])]"
    by code_simp
  with matchKeywords_spec [of sample_article "''Warranty claims at the port''"]
  show ?thesis by simp
qed


section \<open>Picking the category of an article\<close>

lemma first_max_snoc_new:
  assumes "first_max f xs i" and "f (xs ! i) < f x"
  shows "first_max f (xs @ [x]) (length xs)"
  using assms by (fastforce simp add: first_max_def)

lemma first_max_snoc_old:
  assumes "first_max f xs i" and "\<not> f (xs ! i) < f x"
  shows "first_max f (xs @ [x]) i"
  using assms by (auto simp add: first_max_def nth_append)

lemma fold_best_step:
  assumes "\<forall>x \<in> set xs. s0 < f x" and "xs \<noteq> []"
  shows "\<exists>i. first_max f xs i \<and> fold (best_step f key) xs (c0, s0) = (key (xs ! i), f (xs ! i))"
  using assms
proof (induction xs rule: rev_induct)
  case Nil
  then show ?case by simp
next
  case (snoc x xs)
  show ?case
  proof (cases "xs = []")
    case True
    with snoc.prems have "fold (best_step f key) (xs @ [x]) (c0, s0) = (key x, f x)"
      by (simp add: best_step_def)
    moreover have "first_max f (xs @ [x]) 0"
      using True by (simp add: first_max_def)
    ultimately show ?thesis using True by (intro exI [of _ 0]) simp
  next
    case False
    with snoc obtain i where i: "first_max f xs i"
      and f: "fold (best_step f key) xs (c0, s0) = (key (xs ! i), f (xs ! i))"
      by auto
    from i have il: "i < length xs" by (simp add: first_max_def)
    show ?thesis
    proof (cases "f (xs ! i) < f x")
      case True
      from first_max_snoc_new [OF i True]
      have "first_max f (xs @ [x]) (length xs)" .
      moreover have "fold (best_step f key) (xs @ [x]) (c0, s0) = (key x, f x)"
        using f True by (simp add: best_step_def)
      ultimately show ?thesis by (intro exI [of _ "length xs"]) simp
    next
      case False
      from first_max_snoc_old [OF i False]
      have "first_max f (xs @ [x]) i" .
      moreover have "fold (best_step f key) (xs @ [x]) (c0, s0) = (key (xs ! i), f (xs ! i))"
        using f False by (simp add: best_step_def)
      moreover have "(xs @ [x]) ! i = xs ! i" using il by (simp add: nth_append)
      ultimately show ?thesis by (intro exI [of _ i]) simp
    qed
  qed
qed

lemma first_max_unique:
  assumes "first_max f xs i" and "first_max f xs j"
  shows "i = j"
proof (rule ccontr)
  assume "i \<noteq> j"
  then consider "i < j" | "j < i" by force
  then show False
  proof cases
    case 1
    with assms(2) have "xs ! i \<in> set (take j xs)"
      by (auto simp add: first_max_def in_set_conv_nth intro!: exI [of _ i])
    with assms(2) have "f (xs ! i) < f (xs ! j)" by (simp add: first_max_def)
    moreover from assms have "f (xs ! j) \<le> f (xs ! i)" by (simp add: first_max_def)
    ultimately show False by simp
  next
    case 2
    with assms(1) have "xs ! j \<in> set (take i xs)"
      by (auto simp add: first_max_def in_set_conv_nth intro!: exI [of _ j])
    with assms(1) have "f (xs ! j) < f (xs ! i)" by (simp add: first_max_def)
    moreover from assms have "f (xs ! i) \<le> f (xs ! j)" by (simp add: first_max_def)
    ultimately show False by simp
  qed
qed

lemma pick_step_best: "pick_step = best_step match_score fst"
  by (auto simp add: pick_step_def best_step_def match_score_def Let_def fun_eq_iff)

lemma match_score_nonneg: "0 \<le> match_score e"
  by (cases e) (simp add: match_score_def js_mul_nonneg less_imp_le [OF CATEGORY_WEIGHT_pos])

lemma pickCategory_nonempty:
  assumes "matches \<noteq> []"
  shows "\<exists>i. first_max match_score matches i \<and> pickCategory matches = fst (matches ! i)"
proof -
  have "\<forall>e \<in> set matches. - 1 < match_score e"
    using match_score_nonneg by (auto intro: less_le_trans [of "- 1" 0])
  from fold_best_step [OF this assms, of fst General]
  show ?thesis by (auto simp add: pickCategory_def pick_step_best)
qed

subsection \<open>The double-precision scores against the exact scores\<close>

text \<open>
  Two different exact scores are at least a tenth apart, and a double-precision score is
  within a fortieth of the exact one, so different exact scores keep their order.
\<close>

lemma baseWeight_tenths: "baseWeight c = of_nat (tenths c) / 10"
  by (cases c) simp_all

lemma exact_score_tenths:
  "exact_score (c, ws) = of_nat (length ws * tenths c) / 10"
  by (simp add: exact_score_def baseWeight_tenths)

lemma exact_score_gap:
  assumes "exact_score (c1, ws1) < exact_score (c2, ws2)"
  shows "exact_score (c1, ws1) + 1 / 10 \<le> exact_score (c2, ws2)"
proof -
  from assms have "(of_nat (length ws1 * tenths c1) :: rat) < of_nat (length ws2 * tenths c2)"
    by (simp add: exact_score_tenths)
  then have "length ws1 * tenths c1 < length ws2 * tenths c2" by (simp only: of_nat_less_iff)
  then have "length ws1 * tenths c1 + 1 \<le> length ws2 * tenths c2" by simp
  then have "(of_nat (length ws1 * tenths c1 + 1) :: rat) \<le> of_nat (length ws2 * tenths c2)"
    by (simp only: of_nat_le_iff)
  then show ?thesis by (simp add: exact_score_tenths add_divide_distrib)
qed

lemma weight_error: "\<bar>CATEGORY_WEIGHT c - baseWeight c\<bar> \<le> 1 / 2 ^ 53"
  by (cases c) (simp_all del: CATEGORY_WEIGHT.simps add: weight_values)

lemma weight_le_2: "CATEGORY_WEIGHT c \<le> 2"
  by (cases c) (simp_all del: CATEGORY_WEIGHT.simps add: weight_values)

lemma match_score_error:
  assumes "length ws \<le> 21"
  shows "\<bar>match_score (c, ws) - exact_score (c, ws)\<bar> \<le> 1 / 40"
proof -
  define n :: rat where "n = of_nat (length ws)"
  define W where "W = CATEGORY_WEIGHT c"
  define w where "w = baseWeight c"
  define P where "P = n * W"
  define Q where "Q = n * w"
  have p: "(2::rat) ^ 53 = 9007199254740992" by simp
  have n0: "0 \<le> n" by (simp add: n_def)
  from assms have "(of_nat (length ws) :: rat) \<le> of_nat 21" by (simp only: of_nat_le_iff)
  then have n21: "n \<le> 21" by (simp add: n_def)
  have W0: "0 \<le> W" using CATEGORY_WEIGHT_pos [of c] by (simp add: W_def)
  have W2: "W \<le> 2" by (simp add: W_def weight_le_2)
  from n0 W0 have P0: "0 \<le> P" by (simp add: P_def)
  from n21 W2 n0 W0 have "n * W \<le> 21 * 2" by (intro mult_mono) simp_all
  then have P42: "P \<le> 42" by (simp add: P_def)
  from weight_error [of c] have "\<bar>W - w\<bar> \<le> 1 / 9007199254740992"
    unfolding p by (simp only: W_def w_def)
  with n0 n21 have "n * \<bar>W - w\<bar> \<le> 21 * (1 / 9007199254740992)"
    by (intro mult_mono) simp_all
  moreover have "\<bar>P - Q\<bar> = n * \<bar>W - w\<bar>"
    using n0 by (simp add: P_def Q_def abs_mult right_diff_distrib [symmetric])
  ultimately have e1: "\<bar>P - Q\<bar> \<le> 21 / 9007199254740992" by simp
  from fl_rel_error [OF P0] have "\<bar>fl P - P\<bar> \<le> P / 9007199254740992" unfolding p .
  with P42 e1 have "\<bar>fl P - Q\<bar> \<le> 1 / 40" by linarith
  then show ?thesis
    by (simp add: match_score_def exact_score_def js_mul_def P_def Q_def n_def W_def w_def)
qed

lemma score_order_apart:
  assumes "length ws1 \<le> 21" and "length ws2 \<le> 21"
    and "exact_score (c1, ws1) \<noteq> exact_score (c2, ws2)"
  shows "(match_score (c1, ws1) < match_score (c2, ws2)) =
    (exact_score (c1, ws1) < exact_score (c2, ws2))"
proof -
  from assms(3) consider "exact_score (c1, ws1) < exact_score (c2, ws2)"
    | "exact_score (c2, ws2) < exact_score (c1, ws1)" by force
  then show ?thesis
  proof cases
    case 1
    from exact_score_gap [OF 1] match_score_error [OF assms(1), of c1]
      match_score_error [OF assms(2), of c2]
    have "match_score (c1, ws1) < match_score (c2, ws2)" by linarith
    with 1 show ?thesis by simp
  next
    case 2
    from exact_score_gap [OF 2] match_score_error [OF assms(1), of c1]
      match_score_error [OF assms(2), of c2]
    have "match_score (c2, ws2) < match_score (c1, ws1)" by linarith
    with 2 show ?thesis by simp
  qed
qed

text \<open>
  Equal exact scores of two categories, the first before the second in the dictionary:
  the double-precision score of the second is not the greater one. The numbers of
  keywords are bounded by the dictionary, which leaves nine pairs to evaluate.
\<close>

lemma tie_9_10: "\<not> js_mul 9 (CATEGORY_WEIGHT Geopolitical) < js_mul 10 (CATEGORY_WEIGHT Monetary)"
  by code_simp

lemma tie_4_5: "\<not> js_mul 4 (CATEGORY_WEIGHT Geopolitical) < js_mul 5 (CATEGORY_WEIGHT Commodity)"
  by code_simp

lemma tie_8_10: "\<not> js_mul 8 (CATEGORY_WEIGHT Geopolitical) < js_mul 10 (CATEGORY_WEIGHT Commodity)"
  by code_simp

lemma tie_12_15: "\<not> js_mul 12 (CATEGORY_WEIGHT Geopolitical) < js_mul 15 (CATEGORY_WEIGHT Commodity)"
  by code_simp

lemma tie_7_10: "\<not> js_mul 7 (CATEGORY_WEIGHT Geopolitical) < js_mul 10 (CATEGORY_WEIGHT SupplyChain)"
  by code_simp

lemma tie_8_9: "\<not> js_mul 8 (CATEGORY_WEIGHT Monetary) < js_mul 9 (CATEGORY_WEIGHT Commodity)"
  by code_simp

lemma tie_7_9: "\<not> js_mul 7 (CATEGORY_WEIGHT Monetary) < js_mul 9 (CATEGORY_WEIGHT SupplyChain)"
  by code_simp

lemma tie_7_8: "\<not> js_mul 7 (CATEGORY_WEIGHT Commodity) < js_mul 8 (CATEGORY_WEIGHT SupplyChain)"
  by code_simp

lemma tie_14_16: "\<not> js_mul 14 (CATEGORY_WEIGHT Commodity) < js_mul 16 (CATEGORY_WEIGHT SupplyChain)"
  by code_simp

lemma js_mul_zero: "js_mul 0 a = 0"
  by (simp add: js_mul_def fl_def)

lemma tie_cases:
  assumes "category_rank c1 < category_rank c2"
    and "n1 \<le> dictionary_size c1" and "n2 \<le> dictionary_size c2"
    and "n1 * tenths c1 = n2 * tenths c2"
  shows "(n1 = 0 \<and> n2 = 0) \<or>
    (c1, n1, c2, n2) \<in> {(Geopolitical, 9, Monetary, 10), (Geopolitical, 4, Commodity, 5),
      (Geopolitical, 8, Commodity, 10), (Geopolitical, 12, Commodity, 15),
      (Geopolitical, 7, SupplyChain, 10), (Monetary, 8, Commodity, 9),
      (Monetary, 7, SupplyChain, 9), (Commodity, 7, SupplyChain, 8),
      (Commodity, 14, SupplyChain, 16)}"
  using assms by (cases c1; cases c2) (simp_all, presburger+)

lemma score_order_tie:
  assumes "category_rank c1 < category_rank c2"
    and "length ws1 \<le> dictionary_size c1" and "length ws2 \<le> dictionary_size c2"
    and "exact_score (c1, ws1) = exact_score (c2, ws2)"
  shows "\<not> match_score (c1, ws1) < match_score (c2, ws2)"
proof -
  from assms(4) have "(of_nat (length ws1 * tenths c1) :: rat) = of_nat (length ws2 * tenths c2)"
    by (simp add: exact_score_tenths)
  then have "length ws1 * tenths c1 = length ws2 * tenths c2" by (simp only: of_nat_eq_iff)
  from tie_cases [OF assms(1-3) this] show ?thesis
    by (auto simp add: match_score_def js_mul_zero tie_9_10 tie_4_5 tie_8_10 tie_12_15
        tie_7_10 tie_8_9 tie_7_9 tie_7_8 tie_14_16 simp del: CATEGORY_WEIGHT.simps)
qed

lemma dictionary_size_le: "dictionary_size c \<le> 21"
  by (cases c) simp_all

lemma score_order:
  assumes "category_rank c1 < category_rank c2"
    and "length ws1 \<le> dictionary_size c1" and "length ws2 \<le> dictionary_size c2"
  shows "(match_score (c1, ws1) < match_score (c2, ws2)) =
    (exact_score (c1, ws1) < exact_score (c2, ws2))"
proof (cases "exact_score (c1, ws1) = exact_score (c2, ws2)")
  case True
  with score_order_tie [OF assms True] show ?thesis by simp
next
  case False
  from assms(2) dictionary_size_le [of c1] have 1: "length ws1 \<le> 21" by simp
  from assms(3) dictionary_size_le [of c2] have 2: "length ws2 \<le> 21" by simp
  from score_order_apart [OF 1 2 False] show ?thesis .
qed

lemma first_max_transfer:
  assumes "first_max f xs i"
    and "\<forall>j k. j < k \<longrightarrow> k < length xs \<longrightarrow> (f (xs ! j) < f (xs ! k)) = (g (xs ! j) < g (xs ! k))"
  shows "first_max g xs i"
proof -
  from assms(1) have il: "i < length xs" by (simp add: first_max_def)
  have after: "g (xs ! k) \<le> g (xs ! i)" if "i < k" "k < length xs" for k
  proof -
    from assms(1) that have "f (xs ! k) \<le> f (xs ! i)" by (simp add: first_max_def)
    with assms(2) that show ?thesis by (simp add: not_less [symmetric])
  qed
  have before: "g (xs ! j) < g (xs ! i)" if "j < i" for j
  proof -
    from that il have "xs ! j \<in> set (take i xs)"
      by (auto simp add: in_set_conv_nth intro!: exI [of _ j])
    with assms(1) have "f (xs ! j) < f (xs ! i)" by (simp add: first_max_def)
    with assms(2) that il show ?thesis by simp
  qed
  have "g y \<le> g (xs ! i)" if "y \<in> set xs" for y
  proof -
    from that obtain k where k: "k < length xs" "y = xs ! k" by (auto simp add: in_set_conv_nth)
    consider "k < i" | "k = i" | "i < k" by force
    then show ?thesis
    proof cases
      case 1
      with before k show ?thesis by (simp add: less_imp_le)
    next
      case 2
      with k show ?thesis by simp
    next
      case 3
      with after k show ?thesis by simp
    qed
  qed
  moreover have "g y < g (xs ! i)" if "y \<in> set (take i xs)" for y
  proof -
    from that il obtain j where "j < i" "y = xs ! j"
      by (auto simp add: in_set_conv_nth)
    with before show ?thesis by simp
  qed
  ultimately show ?thesis using il by (simp add: first_max_def)
qed

lemma keyword_mapping_order:
  assumes "keyword_mapping m" and "j < k" and "k < length m"
  shows "(match_score (m ! j) < match_score (m ! k)) = (exact_score (m ! j) < exact_score (m ! k))"
proof -
  obtain c1 ws1 where e1: "m ! j = (c1, ws1)" by (cases "m ! j")
  obtain c2 ws2 where e2: "m ! k = (c2, ws2)" by (cases "m ! k")
  from assms have "category_rank (fst (m ! j)) < category_rank (fst (m ! k))"
    by (simp add: keyword_mapping_def sorted_wrt_iff_nth_less)
  then have r: "category_rank c1 < category_rank c2" by (simp add: e1 e2)
  from assms have "m ! j \<in> set m" and "m ! k \<in> set m" by simp_all
  with assms(1) have "length ws1 \<le> dictionary_size c1" and "length ws2 \<le> dictionary_size c2"
    by (auto simp add: keyword_mapping_def e1 e2)
  from score_order [OF r this] show ?thesis by (simp only: e1 e2)
qed

lemma pickCategory_keyword_mapping:
  assumes "keyword_mapping m" and "m \<noteq> []"
  shows "\<exists>i. first_max exact_score m i \<and> pickCategory m = fst (m ! i)"
proof -
  from pickCategory_nonempty [OF assms(2)]
  obtain i where i: "first_max match_score m i" and p: "pickCategory m = fst (m ! i)"
    by blast
  from keyword_mapping_order [OF assms(1)]
  have "\<forall>j k. j < k \<longrightarrow> k < length m \<longrightarrow>
      (match_score (m ! j) < match_score (m ! k)) = (exact_score (m ! j) < exact_score (m ! k))"
    by blast
  from first_max_transfer [OF i this] p show ?thesis by blast
qed

lemma dictionary_size_KEYWORDS: "(cat, ws) \<in> set KEYWORDS \<Longrightarrow> length ws = dictionary_size cat"
  by (auto simp add: KEYWORDS_def)

lemma rank_KEYWORDS:
  "sorted_wrt (\<lambda>a b. category_rank (fst a) < category_rank (fst b)) KEYWORDS"
  by (simp add: KEYWORDS_def)

lemma keyword_mapping_matchKeywords: "keyword_mapping (matchKeywords text)"
proof -
  let ?g = "\<lambda>(cat, ws). (cat, filter (\<lambda>w. sublist w (lc text)) ws)"
  have fst_g: "fst (?g e) = fst e" for e :: "RiskCategory \<times> string list"
    by (cases e) simp
  from rank_KEYWORDS
  have "sorted_wrt (\<lambda>a b. category_rank (fst a) < category_rank (fst b)) (map ?g KEYWORDS)"
    by (simp only: sorted_wrt_map fst_g)
  then have "sorted_wrt (\<lambda>a b. category_rank (fst a) < category_rank (fst b))
      (dictionary_matches text)"
    unfolding dictionary_matches_def by (rule sorted_wrt_filter)
  moreover have "\<forall>(cat, ws) \<in> set (dictionary_matches text). length ws \<le> dictionary_size cat"
  proof (clarify)
    fix cat ws assume "(cat, ws) \<in> set (dictionary_matches text)"
    then obtain dl where "(cat, dl) \<in> set KEYWORDS"
      and "ws = filter (\<lambda>w. sublist w (lc text)) dl"
      by (auto simp add: dictionary_matches_def)
    with dictionary_size_KEYWORDS [of cat dl] show "length ws \<le> dictionary_size cat"
      by (simp only:) (metis length_filter_le)
  qed
  ultimately show ?thesis by (simp add: keyword_mapping_def matchKeywords_dictionary)
qed

text \<open>
  Claim C5: the picker scores every category of the keyword mapping of a text by
  \<open>matchCount \<times> baseWeight\<close> and returns the category with the greatest score, the first
  such category in the order of the mapping when several share it; for the empty mapping
  it returns \<open>General\<close>. The scores are the exact products with the weights 1.00, 0.90,
  0.80, 0.70: on the mappings that the matcher builds, the double-precision products of
  the code select the same category.
\<close>

theorem pickCategory_first_max:
  "pickCategory [] = General \<and>
   (matchKeywords text \<noteq> [] \<longrightarrow>
     (\<exists>i. first_max exact_score (matchKeywords text) i \<and>
        pickCategory (matchKeywords text) = fst (matchKeywords text ! i)))"
proof (intro conjI impI)
  show "pickCategory [] = General" by (simp add: pickCategory_def)
next
  assume "matchKeywords text \<noteq> []"
  with keyword_mapping_matchKeywords [of "text"]
  show "\<exists>i. first_max exact_score (matchKeywords text) i \<and>
      pickCategory (matchKeywords text) = fst (matchKeywords text ! i)"
    by (rule pickCategory_keyword_mapping)
qed

lemma tariff_matches:
  "matchKeywords tariff_text =
     [(Geopolitical, [''war'', ''troops'', ''missile'']),
      (SupplyChain, [''shortage'', ''tariff'', ''shipping'', ''freight''])]"
  by code_simp

lemma tariff_first_max:
  "first_max exact_score
     [(Geopolitical, [''war'', ''troops'', ''missile'']),
      (SupplyChain, [''shortage'', ''tariff'', ''shipping'', ''freight''])] 0"
  by code_simp

lemma copper_matches:
  "matchKeywords copper_text =
     [(Geopolitical, [''war'', ''conflict'', ''military'', ''coup'']),
      (Commodity, [''oil'', ''gold'', ''fuel'', ''copper'', ''wheat''])]"
  by code_simp

lemma copper_first_max:
  "first_max exact_score
     [(Geopolitical, [''war'', ''conflict'', ''military'', ''coup'']),
      (Commodity, [''oil'', ''gold'', ''fuel'', ''copper'', ''wheat''])] 0"
  by code_simp

theorem pickCategory_first_max_witness:
  "matchKeywords tariff_text =
     [(Geopolitical, [''war'', ''troops'', ''missile'']),
      (SupplyChain, [''shortage'', ''tariff'', ''shipping'', ''freight''])] \<and>
   pickCategory (matchKeywords tariff_text) = Geopolitical \<and>
   matchKeywords copper_text =
     [(Geopolitical, [''war'', ''conflict'', ''military'', ''coup'']),
      (Commodity, [''oil'', ''gold'', ''fuel'', ''copper'', ''wheat''])] \<and>
   exact_score (Geopolitical, [''war'', ''conflict'', ''military'', ''coup'']) =
     exact_score (Commodity, [''oil'', ''gold'', ''fuel'', ''copper'', ''wheat'']) \<and>
   pickCategory (matchKeywords copper_text) = Geopolitical"
proof -
  have t: "matchKeywords tariff_text \<noteq> []" by (simp add: tariff_matches)
  from pickCategory_first_max [of tariff_text] t
  obtain i where i: "first_max exact_score (matchKeywords tariff_text) i"
    and p: "pickCategory (matchKeywords tariff_text) = fst (matchKeywords tariff_text ! i)"
    by blast
  from i tariff_first_max have "i = 0"
    by (simp only: tariff_matches) (rule first_max_unique)
  with p have pt: "pickCategory (matchKeywords tariff_text) = Geopolitical"
    by (simp add: tariff_matches)
  have c: "matchKeywords copper_text \<noteq> []" by (simp add: copper_matches)
  from pickCategory_first_max [of copper_text] c
  obtain j where j: "first_max exact_score (matchKeywords copper_text) j"
    and q: "pickCategory (matchKeywords copper_text) = fst (matchKeywords copper_text ! j)"
    by blast
  from j copper_first_max have "j = 0"
    by (simp only: copper_matches) (rule first_max_unique)
  with q have pc: "pickCategory (matchKeywords copper_text) = Geopolitical"
    by (simp add: copper_matches)
  have tie: "exact_score (Geopolitical, [''war'', ''conflict'', ''military'', ''coup'']) =
      exact_score (Commodity, [''oil'', ''gold'', ''fuel'', ''copper'', ''wheat''])"
    by (simp add: exact_score_def)
  from pt pc tie show ?thesis by (simp add: tariff_matches copper_matches)
qed


section \<open>General is the category of the articles without a match\<close>

lemma pickCategory_Nil: "pickCategory [] = General"
  by (simp add: pickCategory_def)

lemma pickCategory_mem: "m \<noteq> [] \<Longrightarrow> pickCategory m \<in> fst ` set m"
  using pickCategory_nonempty [of m] by (auto simp add: first_max_def)

lemma pickCategory_matchKeywords:
  "pickCategory (matchKeywords text) = General \<longleftrightarrow> matchKeywords text = []"
proof
  assume g: "pickCategory (matchKeywords text) = General"
  show "matchKeywords text = []"
  proof (rule ccontr)
    assume "matchKeywords text \<noteq> []"
    from pickCategory_mem [OF this] g General_not_matched [of "text"] show False by simp
  qed
next
  assume "matchKeywords text = []"
  then show "pickCategory (matchKeywords text) = General" by (simp add: pickCategory_Nil)
qed

text \<open>
  Claim C10: a classified article has the category \<open>General\<close> exactly when its keyword
  mapping is empty; the picker returns \<open>General\<close> on the mapping of a text exactly when
  no category has a matching keyword.
\<close>

theorem General_iff_no_match:
  "(\<exists>r. classifyArticles rs = Some r \<and>
      (\<forall>a \<in> set (articles r). riskCategory a = General \<longleftrightarrow> keywordMatches a = [])) \<and>
   (pickCategory (matchKeywords text) = General \<longleftrightarrow> matchKeywords text = [])"
proof
  obtain r where r: "classifyArticles rs = Some r" and a: "articles r = map classify_one rs"
    by (rule classifyArticles_Some)
  have "\<forall>a \<in> set (articles r). riskCategory a = General \<longleftrightarrow> keywordMatches a = []"
    by (auto simp add: a riskCategory_classify_one keywordMatches_classify_one
        pickCategory_matchKeywords)
  with r show "\<exists>r. classifyArticles rs = Some r \<and>
      (\<forall>a \<in> set (articles r). riskCategory a = General \<longleftrightarrow> keywordMatches a = [])"
    by blast
  show "pickCategory (matchKeywords text) = General \<longleftrightarrow> matchKeywords text = []"
    by (rule pickCategory_matchKeywords)
qed

theorem General_iff_no_match_witness:
  "\<exists>r. classifyArticles [troops_article, quiet_article] = Some r \<and>
     classify_one quiet_article \<in> set (articles r) \<and>
     keywordMatches (classify_one quiet_article) = [] \<and>
     riskCategory (classify_one quiet_article) = General \<and>
     classify_one troops_article \<in> set (articles r) \<and>
     keywordMatches (classify_one troops_article) \<noteq> [] \<and>
     riskCategory (classify_one troops_article) \<noteq> General"
proof -
  have q: "keywordMatches (classify_one quiet_article) = []" by code_simp
  have t: "keywordMatches (classify_one troops_article) \<noteq> []" by code_simp
  from General_iff_no_match [of "[troops_article, quiet_article]"]
  obtain r where r: "classifyArticles [troops_article, quiet_article] = Some r"
    and g: "\<forall>a \<in> set (articles r). riskCategory a = General \<longleftrightarrow> keywordMatches a = []"
    by blast
  obtain r' where "classifyArticles [troops_article, quiet_article] = Some r'"
    and "articles r' = map classify_one [troops_article, quiet_article]"
    by (rule classifyArticles_Some)
  with r have mem: "classify_one quiet_article \<in> set (articles r)"
    "classify_one troops_article \<in> set (articles r)" by simp_all
  with g q t r show ?thesis by blast
qed


section \<open>Severity\<close>

text \<open>
  Claim C4: the boost of a text is 40 when a word of the first tier occurs in the
  lower-cased text, otherwise 25 when a word of the second tier occurs, otherwise 12 when
  a word of the third tier occurs, otherwise the baseline 5. It is always exactly one of
  these four values: the boosts of several matching tiers are never added.
\<close>

theorem severityBoost_first_tier:
  "severityBoost text =
     (if \<exists>w \<in> set (words (SEVERITY_TIERS ! 0)). sublist w (lc text) then 40
      else if \<exists>w \<in> set (words (SEVERITY_TIERS ! 1)). sublist w (lc text) then 25
      else if \<exists>w \<in> set (words (SEVERITY_TIERS ! 2)). sublist w (lc text) then 12
      else 5) \<and>
   map boost SEVERITY_TIERS = [40, 25, 12] \<and>
   severityBoost text \<in> {40, 25, 12, 5}"
  by (simp add: severityBoost_def SEVERITY_TIERS_def BASELINE_BOOST_def str_includes_def
      list_ex_iff del: set_simps)

theorem severityBoost_first_tier_witness:
  "severityBoost ''Prices surge as WAR escalates'' = 40 \<and>
   severityBoost ''Prices surge again'' = 25 \<and>
   severityBoost ''Quiet day'' = 5"
proof -
  have a: "\<exists>w \<in> set (words (SEVERITY_TIERS ! 0)). sublist w (lc ''Prices surge as WAR escalates'')"
    by code_simp
  have b: "\<not> (\<exists>w \<in> set (words (SEVERITY_TIERS ! 0)). sublist w (lc ''Prices surge again''))"
    by code_simp
  have c: "\<exists>w \<in> set (words (SEVERITY_TIERS ! 1)). sublist w (lc ''Prices surge again'')"
    by code_simp
  have d: "\<not> (\<exists>w \<in> set (words (SEVERITY_TIERS ! 0)). sublist w (lc ''Quiet day''))"
    by code_simp
  have e: "\<not> (\<exists>w \<in> set (words (SEVERITY_TIERS ! 1)). sublist w (lc ''Quiet day''))"
    by code_simp
  have f: "\<not> (\<exists>w \<in> set (words (SEVERITY_TIERS ! 2)). sublist w (lc ''Quiet day''))"
    by code_simp
  from severityBoost_first_tier [of "''Prices surge as WAR escalates''"]
    severityBoost_first_tier [of "''Prices surge again''"]
    severityBoost_first_tier [of "''Quiet day''"] a b c d e f
  show ?thesis by simp
qed


section \<open>The article score\<close>

lemma scan_tiers_values: "scan_tiers lower tiers \<in> insert BASELINE_BOOST (boost ` set tiers)"
  by (induction tiers) auto

lemma severityBoost_values: "severityBoost text \<in> {40, 25, 12, 5}"
  using scan_tiers_values [of "lc text" SEVERITY_TIERS]
  by (auto simp add: severityBoost_def SEVERITY_TIERS_def BASELINE_BOOST_def)

lemma base_Geopolitical: "js_mul (CATEGORY_WEIGHT Geopolitical) 60 = 60"
  by code_simp

lemma base_Monetary: "js_mul (CATEGORY_WEIGHT Monetary) 60 = 54"
  by code_simp

lemma base_Commodity: "js_mul (CATEGORY_WEIGHT Commodity) 60 = 48"
  by code_simp

lemma base_SupplyChain: "js_mul (CATEGORY_WEIGHT SupplyChain) 60 = 42"
  by code_simp

lemma base_General: "js_mul (CATEGORY_WEIGHT General) 60 = 18"
  by code_simp

lemma base_exact: "js_mul (CATEGORY_WEIGHT c) 60 = baseWeight c * 60"
  by (cases c)
    (simp_all add: base_Geopolitical base_Monetary base_Commodity base_SupplyChain base_General
      del: CATEGORY_WEIGHT.simps)

lemma js_add_nat:
  assumes "a + b < 2 ^ 53"
  shows "js_add (of_nat a) (of_nat b) = of_nat (a + b)"
  using fl_of_nat [OF assms] by (simp add: js_add_def)

lemma base_nat: "\<exists>n \<le> 60. baseWeight c * 60 = of_nat n"
proof (cases c)
  case Geopolitical then show ?thesis by (intro exI [of _ 60]) simp
next
  case Monetary then show ?thesis by (intro exI [of _ 54]) simp
next
  case Commodity then show ?thesis by (intro exI [of _ 48]) simp
next
  case SupplyChain then show ?thesis by (intro exI [of _ 42]) simp
next
  case General then show ?thesis by (intro exI [of _ 18]) simp
qed

lemma boost_nat: "\<exists>n \<le> 40. severityBoost text = of_nat n"
proof -
  from severityBoost_values [of "text"]
  consider "severityBoost text = 40" | "severityBoost text = 25"
    | "severityBoost text = 12" | "severityBoost text = 5" by auto
  then show ?thesis
  proof cases
    case 1 then show ?thesis by (intro exI [of _ 40]) simp
  next
    case 2 then show ?thesis by (intro exI [of _ 25]) simp
  next
    case 3 then show ?thesis by (intro exI [of _ 12]) simp
  next
    case 4 then show ?thesis by (intro exI [of _ 5]) simp
  qed
qed

lemma scoreArticle_spec: "scoreArticle c text = spec_articleScore c text"
proof -
  obtain n where n: "n \<le> 60" "baseWeight c * 60 = of_nat n" using base_nat by blast
  obtain b where b: "b \<le> 40" "severityBoost text = of_nat b" using boost_nat by blast
  from n b have "n + b < 2 ^ 53" by simp
  from js_add_nat [OF this]
  have "js_add (js_mul (CATEGORY_WEIGHT c) 60) (severityBoost text) =
      baseWeight c * 60 + severityBoost text"
    by (simp add: base_exact n b)
  then show ?thesis
    by (simp add: scoreArticle_def spec_articleScore_def Let_def clamp_def Math_round_def
        round_half_up_def)
qed

lemma scan_tiers_none:
  "\<forall>tier \<in> set tiers. \<forall>w \<in> set (words tier). \<not> sublist w lower \<Longrightarrow>
   scan_tiers lower tiers = BASELINE_BOOST"
  by (induction tiers) (simp_all add: list_ex_iff str_includes_def)

lemma severityBoost_baseline: "no_severity_keyword text \<Longrightarrow> severityBoost text = 5"
  by (simp add: no_severity_keyword_def severityBoost_def scan_tiers_none BASELINE_BOOST_def)

lemma matchKeywords_none: "no_category_keyword text \<Longrightarrow> matchKeywords text = []"
  by (auto simp add: no_category_keyword_def matchKeywords_dictionary dictionary_matches_def
      filter_empty_conv)

lemma round_half_up_23: "round_half_up (3 / 10 * 60 + 5) = 23"
  by code_simp

lemma score_General_baseline: "severityBoost text = 5 \<Longrightarrow> spec_articleScore General text = 23"
  by (simp add: spec_articleScore_def round_half_up_23 del: times_divide_eq_left)

text \<open>
  Claim C3, amended: the score of every article is
  \<open>clamp(round(baseWeight(category) \<times> 60 + severityBoost(text)), 0, 100)\<close>, rounding half
  up; the double-precision computation of the code agrees with this formula in exact
  arithmetic. An article whose text matches no keyword of any category and no word of
  any severity tier is classified \<open>General\<close>, has the baseline boost 5 and the score 23.
\<close>

theorem articleScore_formula:
  "articleScore (classify_one a) =
     spec_articleScore (riskCategory (classify_one a)) (article_text a) \<and>
   (no_category_keyword (article_text a) \<and> no_severity_keyword (article_text a) \<longrightarrow>
      riskCategory (classify_one a) = General \<and> severityBoost (article_text a) = 5 \<and>
      articleScore (classify_one a) = 23)"
proof (intro conjI impI)
  show f: "articleScore (classify_one a) =
      spec_articleScore (riskCategory (classify_one a)) (article_text a)"
    by (simp add: articleScore_classify_one riskCategory_classify_one scoreArticle_spec)
  assume h: "no_category_keyword (article_text a) \<and> no_severity_keyword (article_text a)"
  then show g: "riskCategory (classify_one a) = General"
    by (simp add: riskCategory_classify_one matchKeywords_none pickCategory_Nil)
  from h show b: "severityBoost (article_text a) = 5" by (simp add: severityBoost_baseline)
  from f g b show "articleScore (classify_one a) = 23" by (simp add: score_General_baseline)
qed

theorem articleScore_formula_witness:
  "no_category_keyword (article_text quiet_article) \<and>
   no_severity_keyword (article_text quiet_article) \<and>
   riskCategory (classify_one quiet_article) = General \<and>
   articleScore (classify_one quiet_article) = 23"
proof -
  have c: "no_category_keyword (article_text quiet_article)" by code_simp
  have s: "no_severity_keyword (article_text quiet_article)" by code_simp
  from articleScore_formula [of quiet_article] c s show ?thesis by blast
qed

lemma crash_no_category: "no_category_keyword (article_text crash_article)"
  by code_simp

lemma crash_score: "articleScore (classify_one crash_article) = 58"
  by code_simp

lemma crash_boost: "severityBoost (article_text crash_article) = 40"
  by code_simp

lemma crash_category: "riskCategory (classify_one crash_article) = General"
  by code_simp

text \<open>
  Claim C3 as stated fails: the text of \<open>crash_article\<close> matches no keyword of any
  category, but \<open>crash\<close> is a word of the first severity tier, so the boost is 40 and the
  score is 58.
\<close>

theorem crash_article_counterexample:
  "no_category_keyword (article_text crash_article) \<and>
   riskCategory (classify_one crash_article) = General \<and>
   severityBoost (article_text crash_article) = 40 \<and>
   articleScore (classify_one crash_article) = 58 \<and>
   articleScore (classify_one crash_article) \<noteq> 23"
  by (simp add: crash_no_category crash_category crash_score crash_boost)


section \<open>Score ranges\<close>

lemma clamp_bounds: "mn \<le> mx \<Longrightarrow> mn \<le> clamp v mn mx \<and> clamp v mn mx \<le> mx"
  by (simp add: clamp_def)

lemma scoreArticle_bounds: "0 \<le> scoreArticle c t \<and> scoreArticle c t \<le> 100"
  by (simp add: scoreArticle_def Let_def clamp_bounds)

lemma overall_bounds: "overall cs = Some s \<Longrightarrow> 0 \<le> s \<and> s \<le> 100"
  by (auto simp add: overall_value clamp_bounds split: prod.splits if_splits)

text \<open>
  Claim C9: for every list of articles, the overall score of the assessment lies in
  \<open>[0, 100]\<close>, and so does the score of every classified article.
\<close>

theorem scores_in_range:
  "\<exists>r. classifyArticles rs = Some r \<and> 0 \<le> overallScore r \<and> overallScore r \<le> 100 \<and>
     (\<forall>a \<in> set (articles r). 0 \<le> articleScore a \<and> articleScore a \<le> 100)"
proof -
  obtain r where r: "classifyArticles rs = Some r" and a: "articles r = map classify_one rs"
    and s: "overall (map classify_one rs) = Some (overallScore r)"
    by (rule classifyArticles_Some)
  from overall_bounds [OF s] have "0 \<le> overallScore r \<and> overallScore r \<le> 100" .
  moreover have "\<forall>a \<in> set (articles r). 0 \<le> articleScore a \<and> articleScore a \<le> 100"
    by (auto simp add: a articleScore_classify_one scoreArticle_bounds)
  ultimately show ?thesis using r by blast
qed

theorem scores_in_range_witness:
  "\<exists>r. classifyArticles [sample_article] = Some r \<and>
     classify_one sample_article \<in> set (articles r) \<and>
     0 \<le> articleScore (classify_one sample_article) \<and>
     articleScore (classify_one sample_article) \<le> 100 \<and>
     0 \<le> overallScore r \<and> overallScore r \<le> 100"
proof -
  from scores_in_range [of "[sample_article]"]
  obtain r where r: "classifyArticles [sample_article] = Some r"
    and o: "0 \<le> overallScore r \<and> overallScore r \<le> 100"
    and s: "\<forall>a \<in> set (articles r). 0 \<le> articleScore a \<and> articleScore a \<le> 100"
    by blast
  obtain r' where "classifyArticles [sample_article] = Some r'"
    and "articles r' = map classify_one [sample_article]"
    by (rule classifyArticles_Some)
  with r have mem: "classify_one sample_article \<in> set (articles r)" by simp
  with s have "0 \<le> articleScore (classify_one sample_article) \<and>
      articleScore (classify_one sample_article) \<le> 100" by blast
  with r o mem show ?thesis by blast
qed


section \<open>Impact level\<close>

text \<open>
  Claim C6: a score of at most 30 is LOW, a score above 30 and at most 70 (the integers
  31 to 70) is MEDIUM, a score above 70 (the integers 71 to 100) is HIGH; 30 is LOW,
  31 and 70 are MEDIUM, 71 is HIGH.
\<close>

theorem toImpactLevel_bands:
  "(score \<le> 30 \<longrightarrow> toImpactLevel score = LOW) \<and>
   (30 < score \<and> score \<le> 70 \<longrightarrow> toImpactLevel score = MEDIUM) \<and>
   (70 < score \<longrightarrow> toImpactLevel score = HIGH) \<and>
   toImpactLevel 30 = LOW \<and> toImpactLevel 31 = MEDIUM \<and>
   toImpactLevel 70 = MEDIUM \<and> toImpactLevel 71 = HIGH"
  by (simp add: toImpactLevel_def)

theorem toImpactLevel_bands_witness:
  "toImpactLevel 12 = LOW \<and> toImpactLevel 50 = MEDIUM \<and> toImpactLevel 100 = HIGH"
  using toImpactLevel_bands [of 12] toImpactLevel_bands [of 50] toImpactLevel_bands [of 100]
  by simp


section \<open>The category breakdown\<close>

lemma get_set_count: "get_count (set_count k v b) c = (if c = k then v else get_count b c)"
  by (cases k; cases c) simp_all

lemma fold_count_step:
  assumes "\<forall>c. get_count b c = of_nat (m c)" and "\<forall>c. m c + length classified < B"
    and "B \<le> 2 ^ 53"
  shows "get_count (fold count_step classified b) c = of_nat (m c + category_count c classified)"
  using assms(1,2)
proof (induction classified arbitrary: b m)
  case Nil
  then show ?case by (simp add: category_count_def)
next
  case (Cons a classified)
  let ?k = "riskCategory a"
  let ?m = "\<lambda>c. if c = ?k then m c + 1 else m c"
  from Cons.prems(2) have "m ?k + length (a # classified) < B" by blast
  then have "m ?k + 1 < B" by simp
  then have "m ?k + 1 < 2 ^ 53" using assms(3) by (rule less_le_trans)
  from fl_of_nat [OF this] have "fl (of_nat (m ?k + 1)) = of_nat (m ?k + 1)" .
  moreover have "(of_nat (m ?k) :: rat) + 1 = of_nat (m ?k + 1)" by simp
  ultimately have "js_add (of_nat (m ?k)) 1 = of_nat (m ?k + 1)"
    unfolding js_add_def by (simp only:)
  with Cons.prems(1) have 1: "\<forall>c. get_count (count_step a b) c = of_nat (?m c)"
    by (simp add: count_step_def get_set_count)
  have 2: "\<forall>c. ?m c + length classified < B"
  proof
    fix c
    from Cons.prems(2) have "m c + length (a # classified) < B" by blast
    then show "?m c + length classified < B" by auto
  qed
  from Cons.IH [OF 1 2] show ?case by (simp add: category_count_def)
qed

lemma count_categories_eq:
  assumes "length classified < 2 ^ 53"
  shows "get_count (count_categories classified) c = of_nat (category_count c classified)"
proof -
  have "\<forall>c. get_count \<lparr>Geopolitical' = 0, Monetary' = 0, Commodity' = 0, SupplyChain' = 0,
      General' = 0\<rparr> c = of_nat ((\<lambda>c. 0) c)"
    by (rule allI, case_tac c) simp_all
  moreover from assms have "\<forall>c::RiskCategory. (\<lambda>c. 0) c + length classified < 2 ^ 53"
    by simp
  ultimately show ?thesis
    using fold_count_step [of _ "\<lambda>c. 0" classified "2 ^ 53" c]
    by (simp add: count_categories_def)
qed

lemma category_count_sum:
  "category_count Geopolitical as + category_count Monetary as + category_count Commodity as +
   category_count SupplyChain as + category_count General as = length as"
proof (induction as)
  case Nil
  then show ?case by (simp add: category_count_def)
next
  case (Cons a as)
  then show ?case by (cases "riskCategory a") (simp_all add: category_count_def)
qed

lemma percent_error:
  assumes "0 \<le> y"
  shows "\<bar>fl (fl y * 100) - 100 * y\<bar> \<le> 300 * y / 2 ^ 53"
proof -
  define w where "w = fl y"
  have w0: "0 \<le> w" using assms by (simp add: w_def fl_nonneg)
  from fl_rel_error [OF assms] have e1: "\<bar>w - y\<bar> \<le> y / 2 ^ 53" by (simp add: w_def)
  from w0 have "0 \<le> w * 100" by simp
  from fl_rel_error [OF this] have e2: "\<bar>fl (w * 100) - w * 100\<bar> \<le> w * 100 / 2 ^ 53" .
  have p: "(2::rat) ^ 53 = 9007199254740992" by simp
  define v where "v = fl (w * 100)"
  from e1 have a: "w - y \<le> y / 9007199254740992" and b: "y - w \<le> y / 9007199254740992"
    unfolding p by linarith+
  from e2 have c: "v - w * 100 \<le> w * 100 / 9007199254740992"
    and d: "w * 100 - v \<le> w * 100 / 9007199254740992"
    unfolding p v_def by linarith+
  from a b c d assms w0 have "v - 100 * y \<le> 300 * y / 9007199254740992"
    and "100 * y - v \<le> 300 * y / 9007199254740992"
    by linarith+
  then have "\<bar>v - 100 * y\<bar> \<le> 300 * y / 9007199254740992" by linarith
  then show ?thesis unfolding p by (simp only: v_def w_def)
qed

lemma binary64_percentage_error:
  assumes "0 \<le> k" and "0 < n"
  shows "\<bar>binary64_percentage k n - 100 * (k / n)\<bar> \<le> 1 / 2 + k / n / 1000"
proof -
  define y where "y = k / n"
  define v where "v = fl (fl y * 100)"
  from assms have y0: "0 \<le> y" by (simp add: y_def)
  have p: "(2::rat) ^ 53 = 9007199254740992" by simp
  from percent_error [OF y0] have "\<bar>v - 100 * y\<bar> \<le> 300 * y / 9007199254740992"
    unfolding p by (simp only: v_def)
  with y0 have "\<bar>v - 100 * y\<bar> \<le> y / 1000" by linarith
  with Math_round_error [of v] have "\<bar>Math_round v - 100 * y\<bar> \<le> 1 / 2 + y / 1000"
    by linarith
  then show ?thesis by (simp only: binary64_percentage_def v_def y_def)
qed

lemma total_or_one_nonempty: "cl \<noteq> [] \<Longrightarrow> total_or_one cl = of_nat (length cl)"
  by (simp add: total_or_one_def)

lemma breakdown_sum_get:
  "breakdown_sum b = get_count b Geopolitical + get_count b Monetary + get_count b Commodity +
     get_count b SupplyChain + get_count b General"
  by (simp add: breakdown_sum_def)

lemma percentage_of_counts:
  assumes "rs \<noteq> []" and "length rs < 2 ^ 32"
  shows "\<exists>r. classifyArticles rs = Some r \<and> articles r = map classify_one rs \<and>
    (\<forall>c. percent_in c r =
      binary64_percentage (of_nat (count_in c r)) (of_nat (length rs)))"
proof -
  from classifyArticles_result [of rs]
  obtain r where r: "classifyArticles rs = Some r" and a: "articles r = map classify_one rs"
    and p: "\<forall>c. get_count (categoryBreakdown r) c =
      binary64_percentage (get_count (count_categories (map classify_one rs)) c)
        (total_or_one (map classify_one rs))"
    by blast
  from assms(2) have "length (map classify_one rs) < 2 ^ 53" by simp
  from count_categories_eq [OF this] assms(1)
  have "percent_in c r = binary64_percentage (of_nat (count_in c r)) (of_nat (length rs))" for c
    by (simp add: percent_in_def count_in_def p a total_or_one_nonempty)
  with r a show ?thesis by blast
qed

lemma breakdown_sum_bound:
  assumes "0 < n" and "k1 + k2 + k3 + k4 + k5 = n"
  shows "\<bar>binary64_percentage (of_nat k1) (of_nat n) + binary64_percentage (of_nat k2) (of_nat n) +
      binary64_percentage (of_nat k3) (of_nat n) + binary64_percentage (of_nat k4) (of_nat n) +
      binary64_percentage (of_nat k5) (of_nat n) - 100\<bar> \<le> 5 / 2 + 1 / 1000"
proof -
  define N :: rat where "N = of_nat n"
  define y where "y = (\<lambda>k. (of_nat k :: rat) / N)"
  define p where "p = (\<lambda>k. binary64_percentage (of_nat k) N)"
  from assms(1) have n: "0 < N" by (simp add: N_def)
  have e: "\<bar>p k - 100 * y k\<bar> \<le> 1 / 2 + y k / 1000" for k
    using binary64_percentage_error [of "of_nat k" N] n by (simp add: p_def y_def)
  have "of_nat (k1 + k2 + k3 + k4 + k5) = N" by (simp only: assms(2) N_def)
  then have "(y k1 + y k2 + y k3 + y k4 + y k5) * N = N"
    using n by (simp add: y_def algebra_simps)
  with n have s: "y k1 + y k2 + y k3 + y k4 + y k5 = 1" by simp
  have "\<bar>p k1 + p k2 + p k3 + p k4 + p k5 - 100\<bar> \<le> 5 / 2 + 1 / 1000"
    using e [of k1] e [of k2] e [of k3] e [of k4] e [of k5] s by linarith
  then show ?thesis by (simp only: p_def N_def)
qed


subsection \<open>The percentage against the exact formula\<close>

lemma spec_percentage_floor:
  "spec_percentage k n = of_int \<lfloor>100 * (of_nat k / of_nat n :: rat) + 1 / 2\<rfloor>"
  by (simp add: spec_percentage_def round_half_up_def mult.commute)

lemma binary64_percentage_exact:
  assumes n0: "0 < n" and n32: "n < 2 ^ 32" and kn: "k \<le> n"
  shows "(\<not> halfway k n \<longrightarrow> binary64_percentage (of_nat k) (of_nat n) = spec_percentage k n) \<and>
    spec_percentage k n - 1 \<le> binary64_percentage (of_nat k) (of_nat n) \<and>
    binary64_percentage (of_nat k) (of_nat n) \<le> spec_percentage k n"
proof -
  define s :: rat where "s = of_nat k / of_nat n"
  define x where "x = fl (fl s * 100)"
  define T where "T = 200 * k + n"
  define D where "D = 2 * n"
  define m where "m = T div D"
  define r where "r = T mod D"
  define d :: rat where "d = 1 / of_nat D"
  define r' :: rat where "r' = of_nat r / of_nat D"
  define t :: rat where "t = 100 * s + 1 / 2"
  from n0 have D0: "0 < D" by (simp add: D_def)
  from n0 kn have s0: "0 \<le> s" and s1: "s \<le> 1" by (simp_all add: s_def)
  have p: "(2::rat) ^ 53 = 9007199254740992" by simp
  from percent_error [OF s0] have "\<bar>x - 100 * s\<bar> \<le> 300 * s / 9007199254740992"
    unfolding p by (simp only: x_def)
  with s1 have err: "\<bar>x + 1 / 2 - t\<bar> \<le> 300 / 9007199254740992"
    unfolding t_def by linarith
  from n32 have "D \<le> 2 ^ 33" by (simp add: D_def)
  then have "(of_nat D :: rat) \<le> of_nat (2 ^ 33)" by (simp only: of_nat_le_iff)
  then have "(of_nat D :: rat) \<le> 8589934592" by simp
  with D0 have "1 / 8589934592 \<le> d" unfolding d_def by (intro divide_left_mono) simp_all
  then have eps: "300 / 9007199254740992 < d" by linarith
  have "T = D * m + r" by (simp add: m_def r_def)
  then have "(of_nat T :: rat) = of_nat D * of_nat m + of_nat r" by (simp only: of_nat_add of_nat_mult)
  with D0 have "(of_nat T :: rat) / of_nat D = of_nat m + r'"
    by (simp add: r'_def field_simps)
  moreover from n0 have "(of_nat T :: rat) / of_nat D = t"
    by (simp add: T_def D_def t_def s_def field_simps)
  ultimately have tm: "t = of_nat m + r'" by simp
  from D0 have "r < D" by (simp add: r_def)
  then have "r + 1 \<le> D" by simp
  then have "(of_nat (r + 1) :: rat) \<le> of_nat D" by (simp only: of_nat_le_iff)
  with D0 have "(of_nat r + 1) / of_nat D \<le> (1 :: rat)" by simp
  then have r1: "r' \<le> 1 - d" by (simp add: r'_def d_def add_divide_distrib)
  from D0 have r0: "0 \<le> r'" by (simp add: r'_def)
  have sp: "spec_percentage k n = of_int \<lfloor>t\<rfloor>"
    by (simp only: spec_percentage_floor t_def s_def)
  define M :: rat where "M = of_nat m"
  from err have e_lo: "t - 300 / 9007199254740992 \<le> x + 1 / 2"
    and e_hi: "x + 1 / 2 \<le> t + 300 / 9007199254740992" by linarith+
  from tm have tM: "t = M + r'" by (simp only: M_def)
  have M_int: "M = of_int (int m)" by (simp add: M_def)
  from tM r0 r1 eps have "M \<le> t" and "t < M + 1" by linarith+
  then have "of_int (int m) \<le> t" and "t < of_int (int m) + 1" by (simp_all only: M_int)
  then have ft: "\<lfloor>t\<rfloor> = int m" by (rule floor_unique)
  have bp: "binary64_percentage (of_nat k) (of_nat n) = of_int \<lfloor>x + 1 / 2\<rfloor>"
    by (simp add: binary64_percentage_def Math_round_def x_def s_def)
  from e_lo tM r0 eps r1 have "M - 1 \<le> x + 1 / 2" by linarith
  then have "of_int (int m - 1) \<le> x + 1 / 2" by (simp add: M_int)
  then have lo: "int m - 1 \<le> \<lfloor>x + 1 / 2\<rfloor>" by (simp only: le_floor_iff)
  from e_hi tM r1 eps have up: "x + 1 / 2 < M + 1" by linarith
  then have "x + 1 / 2 < of_int (int m) + 1" by (simp only: M_int)
  then have hi: "\<lfloor>x + 1 / 2\<rfloor> \<le> int m" by (simp only: floor_le_iff)
  have eq: "\<lfloor>x + 1 / 2\<rfloor> = int m" if nh: "\<not> halfway k n"
  proof -
    from nh have "r \<noteq> 0" by (simp add: halfway_def r_def T_def D_def dvd_eq_mod_eq_0)
    then have "1 \<le> r" by simp
    then have "(of_nat 1 :: rat) \<le> of_nat r" by (simp only: of_nat_le_iff)
    with D0 have "d \<le> r'" by (simp add: d_def r'_def divide_right_mono)
    with e_lo tM eps have "M \<le> x + 1 / 2" by linarith
    then have "of_int (int m) \<le> x + 1 / 2" by (simp only: M_int)
    moreover from up have "x + 1 / 2 < of_int (int m) + 1" by (simp only: M_int)
    ultimately show ?thesis by (rule floor_unique)
  qed
  show ?thesis
  proof (intro conjI impI)
    assume "\<not> halfway k n"
    from eq [OF this] show "binary64_percentage (of_nat k) (of_nat n) = spec_percentage k n"
      by (simp only: bp sp ft)
  next
    from lo have "(of_int (int m - 1) :: rat) \<le> of_int \<lfloor>x + 1 / 2\<rfloor>"
      by (simp only: of_int_le_iff)
    then show "spec_percentage k n - 1 \<le> binary64_percentage (of_nat k) (of_nat n)"
      by (simp add: bp sp ft)
  next
    from hi have "(of_int \<lfloor>x + 1 / 2\<rfloor> :: rat) \<le> of_int (int m)"
      by (simp only: of_int_le_iff)
    then show "binary64_percentage (of_nat k) (of_nat n) \<le> spec_percentage k n"
      by (simp add: bp sp ft)
  qed
qed

lemma count_in_le: "count_in c r \<le> length (articles r)"
  by (simp add: count_in_def category_count_def)

lemma count_in_sum:
  "count_in Geopolitical r + count_in Monetary r + count_in Commodity r +
   count_in SupplyChain r + count_in General r = length (articles r)"
  by (simp add: count_in_def category_count_sum)

text \<open>
  Claim C7, amended: for a non-empty array of articles, the percentage of every category
  is computed from the number of classified articles of the category and the number of
  articles, never from scores, as \<open>Math.round(count / total * 100)\<close> in binary64
  arithmetic. It equals the exact \<open>round(count / total \<times> 100)\<close> unless
  \<open>count / total \<times> 100\<close> lies halfway between two integers, where it is that value or one
  less. The five percentages add up to 100 with a drift of at most 4. (The length of a
  JavaScript array is below \<open>2^32\<close>.)
\<close>

theorem breakdown_percentages:
  assumes "rs \<noteq> []" and "length rs < 2 ^ 32"
  shows "\<exists>r. classifyArticles rs = Some r \<and>
     (\<forall>c. percent_in c r =
            binary64_percentage (of_nat (count_in c r)) (of_nat (length rs)) \<and>
          (\<not> halfway (count_in c r) (length rs) \<longrightarrow>
            percent_in c r = spec_percentage (count_in c r) (length rs)) \<and>
          spec_percentage (count_in c r) (length rs) - 1 \<le> percent_in c r \<and>
          percent_in c r \<le> spec_percentage (count_in c r) (length rs)) \<and>
     \<bar>breakdown_sum (categoryBreakdown r) - 100\<bar> \<le> 4"
proof -
  from percentage_of_counts [OF assms]
  obtain r where r: "classifyArticles rs = Some r" and a: "articles r = map classify_one rs"
    and p: "\<forall>c. percent_in c r =
      binary64_percentage (of_nat (count_in c r)) (of_nat (length rs))"
    by blast
  from a have len: "length (articles r) = length rs" by simp
  from assms(1) have n0: "0 < length rs" by simp
  have "percent_in c r = binary64_percentage (of_nat (count_in c r)) (of_nat (length rs)) \<and>
      (\<not> halfway (count_in c r) (length rs) \<longrightarrow>
        percent_in c r = spec_percentage (count_in c r) (length rs)) \<and>
      spec_percentage (count_in c r) (length rs) - 1 \<le> percent_in c r \<and>
      percent_in c r \<le> spec_percentage (count_in c r) (length rs)" for c
  proof -
    from count_in_le [of c r] len have "count_in c r \<le> length rs" by simp
    from binary64_percentage_exact [OF n0 assms(2) this] p show ?thesis by simp
  qed
  moreover have "\<bar>breakdown_sum (categoryBreakdown r) - 100\<bar> \<le> 4"
  proof -
    from count_in_sum [of r] len
    have "count_in Geopolitical r + count_in Monetary r + count_in Commodity r +
        count_in SupplyChain r + count_in General r = length rs" by simp
    from breakdown_sum_bound [OF n0 this]
    have "\<bar>percent_in Geopolitical r + percent_in Monetary r + percent_in Commodity r +
        percent_in SupplyChain r + percent_in General r - 100\<bar> \<le> 5 / 2 + 1 / 1000"
      using p by simp
    then have "\<bar>breakdown_sum (categoryBreakdown r) - 100\<bar> \<le> 5 / 2 + 1 / 1000"
      by (simp only: breakdown_sum_get percent_in_def)
    then show ?thesis by linarith
  qed
  ultimately show ?thesis using r by blast
qed

lemma sample_batch_Monetary: "category_count Monetary (map classify_one sample_batch) = 1"
  by code_simp

lemma spec_percentage_1_of_3: "spec_percentage 1 3 = 33"
  by code_simp

theorem breakdown_percentages_witness:
  "sample_batch \<noteq> [] \<and> length sample_batch < 2 ^ 32 \<and>
   (\<exists>r. classifyArticles sample_batch = Some r \<and> count_in Monetary r = 1 \<and>
      \<not> halfway 1 3 \<and> percent_in Monetary r = 33 \<and>
      \<bar>breakdown_sum (categoryBreakdown r) - 100\<bar> \<le> 4)"
proof -
  have ne: "sample_batch \<noteq> []" by (simp add: sample_batch_def)
  have len: "length sample_batch < 2 ^ 32" by (simp add: sample_batch_def)
  have l3: "length sample_batch = 3" by (simp add: sample_batch_def)
  have nh: "\<not> halfway 1 3" by (simp add: halfway_def)
  from breakdown_percentages [OF ne len]
  obtain r where r: "classifyArticles sample_batch = Some r"
    and h: "\<not> halfway (count_in Monetary r) (length sample_batch) \<longrightarrow>
      percent_in Monetary r = spec_percentage (count_in Monetary r) (length sample_batch)"
    and s: "\<bar>breakdown_sum (categoryBreakdown r) - 100\<bar> \<le> 4"
    by blast
  from classifyArticles_result [of sample_batch] r
  have "articles r = map classify_one sample_batch" by auto
  then have c: "count_in Monetary r = 1" by (simp add: count_in_def sample_batch_Monetary)
  from h nh have "percent_in Monetary r = spec_percentage 1 3" unfolding c l3 by blast
  then have "percent_in Monetary r = 33" by (simp only: spec_percentage_1_of_3)
  with ne len r c nh s show ?thesis by blast
qed


subsection \<open>Twenty-three articles of forty\<close>

lemma troops_category: "riskCategory (classify_one troops_article) = Geopolitical"
  by code_simp

lemma quiet_category: "riskCategory (classify_one quiet_article) = General"
  by code_simp

lemma half_batch_count: "category_count Geopolitical (map classify_one half_batch) = 23"
  by (simp add: half_batch_def category_count_def troops_category quiet_category)

lemma binary64_percentage_23_of_40: "binary64_percentage 23 40 = 57"
  by code_simp

lemma spec_percentage_23_of_40: "spec_percentage 23 40 = 58"
  by code_simp

text \<open>
  Claim C7 as stated fails: of the 40 articles of \<open>half_batch\<close>, 23 are classified
  \<open>Geopolitical\<close>. The quotient \<open>23 / 40\<close> is rounded down to binary64, its product with
  100 is \<open>57.49999999999999\<close>, and the percentage is 57, where \<open>round(23 / 40 \<times> 100)\<close> is
  \<open>round(57.5) = 58\<close>.
\<close>

theorem half_batch_counterexample:
  "half_batch \<noteq> [] \<and> length half_batch = 40 \<and>
   map_option (count_in Geopolitical) (classifyArticles half_batch) = Some 23 \<and>
   map_option (percent_in Geopolitical) (classifyArticles half_batch) = Some 57 \<and>
   spec_percentage 23 40 = 58"
proof -
  have ne: "half_batch \<noteq> []" and l40: "length half_batch = 40"
    by (simp_all add: half_batch_def)
  then have len: "length half_batch < 2 ^ 32" by simp
  from percentage_of_counts [OF ne len]
  obtain r where r: "classifyArticles half_batch = Some r"
    and a: "articles r = map classify_one half_batch"
    and p: "\<forall>c. percent_in c r =
      binary64_percentage (of_nat (count_in c r)) (of_nat (length half_batch))"
    by blast
  from a have c: "count_in Geopolitical r = 23" by (simp add: count_in_def half_batch_count)
  from p have "percent_in Geopolitical r = 57"
    by (simp add: c l40 binary64_percentage_23_of_40)
  with r c ne l40 show ?thesis by (simp add: spec_percentage_23_of_40)
qed


section \<open>The empty batch\<close>

text \<open>
  Claim C2: for the empty list the overall score is 0, the impact level is LOW and the
  five percentages are 0. Neither division by zero is evaluated. The weighted sum and the
  total weight are both 0, their quotient is not a number, and the guard
  \<open>totalWeight > 0\<close> returns the default 0 in its place. The quotient of a count by the
  length 0 is not a number either, and the percentages divide by
  \<open>classified.length || 1 = 1\<close> in its place.
\<close>

theorem classifyArticles_empty:
  "map_option overallScore (classifyArticles []) = Some 0 \<and>
   map_option impactLevel (classifyArticles []) = Some LOW \<and>
   map_option categoryBreakdown (classifyArticles []) =
     Some \<lparr>Geopolitical' = 0, Monetary' = 0, Commodity' = 0, SupplyChain' = 0,
       General' = 0\<rparr> \<and>
   js_div (fst (totals [])) (snd (totals [])) = None \<and> overall [] = Some 0 \<and>
   js_div 0 (of_nat (length ([] :: ClassifiedArticle list))) = None \<and>
   percentage 0 (total_or_one []) = Some 0"
proof (intro conjI)
  show "map_option overallScore (classifyArticles []) = Some 0" by code_simp
  show "map_option impactLevel (classifyArticles []) = Some LOW" by code_simp
  show "map_option categoryBreakdown (classifyArticles []) =
     Some \<lparr>Geopolitical' = 0, Monetary' = 0, Commodity' = 0, SupplyChain' = 0,
       General' = 0\<rparr>" by code_simp
  show "js_div (fst (totals [])) (snd (totals [])) = None"
    by (simp add: totals_def js_div_zero)
  show "overall [] = Some 0" by (simp add: overall_def totals_def)
  show "js_div 0 (of_nat (length ([] :: ClassifiedArticle list))) = None"
    by (simp add: js_div_zero)
  show "percentage 0 (total_or_one []) = Some 0" by code_simp
qed


section \<open>The dominant category\<close>

lemma dominant_step_best: "dominant_step = best_step dominant_score fst"
  by (auto simp add: dominant_step_def best_step_def dominant_score_def Let_def fun_eq_iff)

lemma js_add_nonneg: "0 \<le> a \<Longrightarrow> 0 \<le> b \<Longrightarrow> 0 \<le> js_add a b"
  by (simp add: js_add_def fl_nonneg)

lemma fold_count_step_nonneg:
  "\<forall>c. 0 \<le> get_count b c \<Longrightarrow> 0 \<le> get_count (fold count_step classified b) c"
proof (induction classified arbitrary: b)
  case Nil
  then show ?case by simp
next
  case (Cons a classified)
  from Cons.prems have "\<forall>c. 0 \<le> get_count (count_step a b) c"
    by (simp add: count_step_def get_set_count js_add_nonneg)
  from Cons.IH [OF this] show ?case by simp
qed

lemma count_categories_nonneg: "0 \<le> get_count (count_categories classified) c"
proof -
  have "\<forall>c. 0 \<le> get_count \<lparr>Geopolitical' = 0, Monetary' = 0, Commodity' = 0,
      SupplyChain' = 0, General' = 0\<rparr> c"
    by (rule allI, case_tac c) simp_all
  from fold_count_step_nonneg [OF this] show ?thesis by (simp add: count_categories_def)
qed

lemma entries_get: "(cat, n) \<in> set (entries counts) \<Longrightarrow> n = get_count counts cat"
  by (auto simp add: entries_def)

text \<open>
  For every batch the dominant category is the first category, in the order
  \<open>Geopolitical, Monetary, Commodity, SupplyChain, General\<close>, with the greatest
  double-precision product \<open>count \<times> weight\<close>. When all counts are 0 this is
  \<open>Geopolitical\<close>.
\<close>

lemma dominant_first_max:
  "\<exists>r i. classifyArticles rs = Some r \<and>
     first_max dominant_score (entries (count_categories (map classify_one rs))) i \<and>
     dominantCategory r = fst (entries (count_categories (map classify_one rs)) ! i)"
proof -
  obtain r where r: "classifyArticles rs = Some r"
    and d: "dominantCategory r = dominant_of (count_categories (map classify_one rs))"
    by (rule classifyArticles_Some)
  let ?es = "entries (count_categories (map classify_one rs))"
  have ne: "?es \<noteq> []" by (simp add: entries_def)
  have "\<forall>e \<in> set ?es. - 1 < dominant_score e"
  proof
    fix e assume e: "e \<in> set ?es"
    obtain cat n where cn: "e = (cat, n)" by (cases e)
    with e entries_get have "n = get_count (count_categories (map classify_one rs)) cat"
      by blast
    with count_categories_nonneg have "0 \<le> n" by simp
    then have "0 \<le> dominant_score e"
      by (simp add: cn dominant_score_def js_mul_nonneg less_imp_le [OF CATEGORY_WEIGHT_pos])
    then show "- 1 < dominant_score e" by simp
  qed
  from fold_best_step [OF this ne, of fst General] r
  show ?thesis by (auto simp add: d dominant_of_def dominant_step_best)
qed

text \<open>
  The counts are not bounded as the numbers of keywords are, and the double-precision
  products can order two categories whose exact products are equal: three articles of
  \<open>SupplyChain\<close> and seven of \<open>General\<close> both have the exact product 2.1, but
  \<open>3 \<times> 0.7\<close> is rounded below \<open>7 \<times> 0.3\<close>, and the later category is dominant.
\<close>

lemma dominant_of_rounded_tie:
  "dominant_of \<lparr>Geopolitical' = 0, Monetary' = 0, Commodity' = 0, SupplyChain' = 3,
     General' = 7\<rparr> = General"
  by code_simp

lemma exact_tie_3_7: "3 * baseWeight SupplyChain = 7 * baseWeight General"
  by simp

text \<open>
  Claim C1, at the empty list: every count is 0, every product \<open>0 \<times> weight\<close> is 0, and
  \<open>0 > -1\<close> replaces the initial \<open>General\<close> by the first category of the enumeration.
  The dominant category of the empty batch is \<open>Geopolitical\<close>.
\<close>

theorem dominant_empty: "map_option dominantCategory (classifyArticles []) = Some Geopolitical"
  by code_simp

end
